theory Spec2Isabelle
  imports Complex_Main "HOL-Library.Word" "HOL-Library.Monad_Syntax"
begin

section \<open>JavaScript values used by \<open>src/zones/IANAZone.js\<close>\<close>

text \<open>
  A JavaScript string is a sequence of 16-bit code units. \<open>js\<close> embeds an ASCII literal.
  Zone names are only compared, used as property keys and handed to the formatting oracle;
  they are kept as Isabelle strings.
\<close>

type_synonym jsstring = "16 word list"

definition js :: "string \<Rightarrow> jsstring" where
  "js s = map (\<lambda>c. of_nat (of_char c)) s"

text \<open>
  A JavaScript number is \<open>NaN\<close> or a finite value. Finite values are kept exact (as
  rationals), so the rounding of IEEE doubles and the sign of zero are not modelled; no
  operation of this file produces an infinity (every divisor is the constant 60 or 60000),
  and an infinite instant given by the caller is not represented (\<open>new Date\<close> makes it
  an invalid date, as it does \<open>NaN\<close>).
\<close>

datatype jsnum = NaN | Fin rat

fun isNaN :: "jsnum \<Rightarrow> bool" where
  "isNaN NaN = True"
| "isNaN (Fin _) = False"

fun jsadd :: "jsnum \<Rightarrow> jsnum \<Rightarrow> jsnum" where
  "jsadd (Fin a) (Fin b) = Fin (a + b)"
| "jsadd _ _ = NaN"

fun jssub :: "jsnum \<Rightarrow> jsnum \<Rightarrow> jsnum" where
  "jssub (Fin a) (Fin b) = Fin (a - b)"
| "jssub _ _ = NaN"

fun jsmul :: "jsnum \<Rightarrow> jsnum \<Rightarrow> jsnum" where
  "jsmul (Fin a) (Fin b) = Fin (a * b)"
| "jsmul _ _ = NaN"

text \<open>Division; the source only divides by the non-zero constants 60 and 60 * 1000.\<close>

fun jsdiv :: "jsnum \<Rightarrow> jsnum \<Rightarrow> jsnum" where
  "jsdiv (Fin a) (Fin b) = (if b = 0 then NaN else Fin (a / b))"
| "jsdiv _ _ = NaN"

text \<open>Strict inequality \<open>a !== b\<close> on numbers: \<open>NaN\<close> differs from everything.\<close>

fun strict_neq :: "jsnum \<Rightarrow> jsnum \<Rightarrow> bool" where
  "strict_neq (Fin a) (Fin b) = (a \<noteq> b)"
| "strict_neq _ _ = True"

text \<open>\<open>String.prototype.charCodeAt\<close>: \<open>NaN\<close> outside the string.\<close>

definition charCodeAt :: "jsstring \<Rightarrow> int \<Rightarrow> jsnum" where
  "charCodeAt s i =
     (if 0 \<le> i \<and> i < int (length s) then Fin (of_nat (unat (s ! nat i))) else NaN)"

text \<open>\<open>String.prototype.slice\<close>: negative positions count from the end, both are clamped.\<close>

definition slice :: "jsstring \<Rightarrow> int \<Rightarrow> int \<Rightarrow> jsstring" where
  "slice s a b =
     (let n = int (length s);
          from = (if a < 0 then max (n + a) 0 else min a n);
          to = (if b < 0 then max (n + b) 0 else min b n)
      in take (nat (to - from)) (drop (nat from) s))"

text \<open>
  \<open>formatted.search(/GMT([+-][0-9][0-9]:[0-9][0-9](:[0-9][0-9])?)?/)\<close>: the group after
  \<open>GMT\<close> is optional, so the expression matches exactly where \<open>GMT\<close> occurs and the
  result is the index of the first occurrence of \<open>GMT\<close>, or \<open>-1\<close>.
\<close>

fun search_GMT :: "jsstring \<Rightarrow> int" where
  "search_GMT [] = -1"
| "search_GMT (c # cs) =
     (if take 3 (c # cs) = js ''GMT'' then 0
      else (let r = search_GMT cs in if r < 0 then -1 else r + 1))"

definition isStrWhiteSpace :: "16 word \<Rightarrow> bool" where
  "isStrWhiteSpace c \<longleftrightarrow>
     c \<in> {0x9, 0xA, 0xB, 0xC, 0xD, 0x20, 0xA0, 0x1680, 0x2028, 0x2029, 0x202F, 0x205F,
          0x3000, 0xFEFF} \<or> (0x2000 \<le> c \<and> c \<le> 0x200A)"

definition isDigit :: "16 word \<Rightarrow> bool" where
  "isDigit c \<longleftrightarrow> 0x30 \<le> c \<and> c \<le> 0x39"

definition digitsVal :: "jsstring \<Rightarrow> nat" where
  "digitsVal ds = foldl (\<lambda>acc c. 10 * acc + (unat c - 48)) 0 ds"

definition trim :: "jsstring \<Rightarrow> jsstring" where
  "trim s = rev (dropWhile isStrWhiteSpace (rev (dropWhile isStrWhiteSpace s)))"

text \<open>
  \<open>Number(s)\<close> on a string: white space is trimmed, the empty string is 0, a decimal
  literal (optional sign, digits, optional fraction) is its value, anything else is
  \<open>NaN\<close>. The literals left out (an exponent part, \<open>Infinity\<close>, a radix prefix with
  digits) have three or more code units and a character that is not a digit; the source
  converts only slices of at most two code units (directOffset) and digit strings captured
  by \<open>\d+\<close> (the year of hackyOffset, under \<open>Math.abs\<close>), on which this is the whole
  of \<open>StringToNumber\<close>.
\<close>

definition js_Number :: "jsstring \<Rightarrow> jsnum" where
  "js_Number s =
     (case trim s of
        [] \<Rightarrow> Fin 0
      | c # r \<Rightarrow>
          (let neg = (c = 0x2D);
               u = (if c = 0x2B \<or> c = 0x2D then r else c # r);
               ip = takeWhile isDigit u;
               rest = dropWhile isDigit u;
               v = (case rest of
                      [] \<Rightarrow> (if ip = [] then None else Some (of_nat (digitsVal ip)))
                    | d # fp \<Rightarrow>
                        (if d = 0x2E \<and> list_all isDigit fp \<and> (ip \<noteq> [] \<or> fp \<noteq> [])
                         then Some (of_nat (digitsVal ip)
                                    + of_nat (digitsVal fp) / 10 ^ length fp)
                         else None))
           in (case v of None \<Rightarrow> NaN | Some q \<Rightarrow> Fin (if neg then - q else q))))"

section \<open>Errors, plain objects and the platform\<close>

text \<open>A raised value. \<open>Error m\<close> is \<open>new Error(m)\<close>.\<close>

datatype js_error = RangeError | TypeError | Error string

text \<open>
  The three caches are plain objects \<open>{}\<close>: a read \<open>cache[k]\<close> finds an own
  property, or else a property inherited from \<open>Object.prototype\<close>, or else
  \<open>undefined\<close>. The inherited values (functions, and \<open>Object.prototype\<close> itself for
  \<open>__proto__\<close>) are all truthy and none of them has a \<open>format\<close> or
  \<open>formatToParts\<close> property.
\<close>

definition object_prototype_keys :: "string list" where
  "object_prototype_keys =
     [''constructor'', ''__defineGetter__'', ''__defineSetter__'', ''hasOwnProperty'',
      ''__lookupGetter__'', ''__lookupSetter__'', ''isPrototypeOf'',
      ''propertyIsEnumerable'', ''toString'', ''valueOf'', ''__proto__'',
      ''toLocaleString'']"

datatype 'a slot = Undefined | Own 'a | Inherited string

definition obj_get :: "(string \<rightharpoonup> 'a) \<Rightarrow> string \<Rightarrow> 'a slot" where
  "obj_get own k =
     (case own k of
        Some v \<Rightarrow> Own v
      | None \<Rightarrow> (if k \<in> set object_prototype_keys then Inherited k else Undefined))"

fun truthy :: "'a slot \<Rightarrow> bool" where
  "truthy Undefined = False"
| "truthy (Own _) = True"
| "truthy (Inherited _) = True"

text \<open>
  The option sets the source passes to \<open>new Intl.DateTimeFormat("en-US", ...)\<close>:
  \<open>Minimal\<close> is \<open>{timeZone}\<close> (isValidZone), \<open>LongOffset\<close> is
  \<open>{timeZone, timeZoneName: "longOffset", year: "numeric"}\<close> and \<open>WallClock\<close> is the
  seven-field, \<open>hour12: false\<close> set of makeCalculatedOffsetDTF.
\<close>

datatype shape = Minimal | LongOffset | WallClock

text \<open>A value that \<open>partsOffset\<close> or \<open>hackyOffset\<close> puts in a field.\<close>

datatype jsval = VUndefined | VNum jsnum | VStr jsstring

record fields =
  year :: jsval
  month :: jsval
  day :: jsval
  hour :: jsval
  minute :: jsval
  second :: jsval
  millisecond :: jsval

text \<open>
  What the file takes from outside: the formatting oracle \<open>Intl.DateTimeFormat\<close>
  (construction, \<open>format\<close>, and \<open>formatToParts\<close> where the engine has it), the clock
  \<open>Date.now()\<close>, and \<open>objToLocalTS\<close> of \<open>impl/util.js\<close>. \<open>'f\<close> is the type of
  formatter objects. \<open>newDTF sh zone\<close> is \<open>new Intl.DateTimeFormat("en-US", ...)\<close> with
  the option set \<open>sh\<close>; \<open>format f x\<close> is \<open>f.format(x)\<close> for a number or the time value
  of a date \<open>x\<close>; \<open>formatToParts f\<close> is the method \<open>f.formatToParts\<close>, \<open>None\<close> when
  the formatter has none. Each of them can raise; a part is its (type, value) pair.
\<close>

record 'f env =
  newDTF :: "shape \<Rightarrow> string \<Rightarrow> js_error + 'f"
  format :: "'f \<Rightarrow> jsnum \<Rightarrow> js_error + jsstring"
  formatToParts :: "'f \<Rightarrow> (jsnum \<Rightarrow> js_error + (jsstring \<times> jsstring) list) option"
  objToLocalTS :: "fields \<Rightarrow> jsnum"
  now :: jsnum

section \<open>Module state\<close>

datatype strategy = Direct | Calculated

record IANAZone =
  zoneName :: string
  valid :: bool

text \<open>
  The module's variables. Zone objects live in \<open>heap\<close>, addressed by reference;
  \<open>ianaZoneCache\<close> holds references. \<open>offsetFunc = None\<close> is \<open>undefined\<close>.
\<close>

record 'f state =
  directOffsetDTFCache :: "string \<rightharpoonup> 'f"
  calculatedOffsetDTFCache :: "string \<rightharpoonup> 'f"
  ianaZoneCache :: "string \<rightharpoonup> nat"
  offsetFunc :: "strategy option"
  heap :: "IANAZone list"

definition init :: "'f state" where
  "init = \<lparr> directOffsetDTFCache = Map.empty, calculatedOffsetDTFCache = Map.empty,
            ianaZoneCache = Map.empty, offsetFunc = None, heap = [] \<rparr>"

section \<open>The direct resolver\<close>

definition makeDirectOffsetDTF ::
  "'f env \<Rightarrow> string \<Rightarrow> 'f state \<Rightarrow> (js_error + 'f slot) \<times> 'f state" where
  "makeDirectOffsetDTF env zone st =
     (if \<not> truthy (obj_get (directOffsetDTFCache st) zone) then
        (case newDTF env LongOffset zone of
           Inl e \<Rightarrow> (Inl e, st)
         | Inr f \<Rightarrow>
             (let st' = st\<lparr>directOffsetDTFCache := (directOffsetDTFCache st)(zone \<mapsto> f)\<rparr>
              in (Inr (obj_get (directOffsetDTFCache st') zone), st')))
      else (Inr (obj_get (directOffsetDTFCache st) zone), st))"

text \<open>\<open>dtf.format(x)\<close> on whatever the cache returned: only a formatter has the method.\<close>

fun call_format :: "'f env \<Rightarrow> 'f slot \<Rightarrow> jsnum \<Rightarrow> js_error + jsstring" where
  "call_format env (Own f) x = format env f x"
| "call_format env _ x = Inl TypeError"

definition directOffset ::
  "'f env \<Rightarrow> string \<Rightarrow> jsnum \<Rightarrow> 'f state \<Rightarrow> (js_error + jsnum) \<times> 'f state" where
  "directOffset env zone ts st =
     (case makeDirectOffsetDTF env zone st of
        (Inl e, st') \<Rightarrow> (Inl e, st')
      | (Inr dtf, st') \<Rightarrow>
          (case call_format env dtf ts of
             Inl e \<Rightarrow> (Inr NaN, st')
           | Inr formatted \<Rightarrow>
               (let idx = search_GMT formatted;
                    sign = charCodeAt formatted (idx + 3)
                in if isNaN sign then (Inr (Fin 0), st')
                   else (Inr (jsmul (jssub (Fin 44) sign)
                          (jsadd
                            (jsadd
                              (jsmul (js_Number (slice formatted (idx + 4) (idx + 6))) (Fin 60))
                              (js_Number (slice formatted (idx + 7) (idx + 9))))
                            (jsdiv (js_Number (slice formatted (idx + 10) (idx + 12)))
                                   (Fin 60)))), st'))))"

section \<open>The calculated resolver\<close>

definition makeCalculatedOffsetDTF ::
  "'f env \<Rightarrow> string \<Rightarrow> 'f state \<Rightarrow> (js_error + 'f slot) \<times> 'f state" where
  "makeCalculatedOffsetDTF env zone st =
     (if \<not> truthy (obj_get (calculatedOffsetDTFCache st) zone) then
        (case newDTF env WallClock zone of
           Inl e \<Rightarrow> (Inl e, st)
         | Inr f \<Rightarrow>
             (let st' = st\<lparr>calculatedOffsetDTFCache :=
                            (calculatedOffsetDTFCache st)(zone \<mapsto> f)\<rparr>
              in (Inr (obj_get (calculatedOffsetDTFCache st') zone), st')))
      else (Inr (obj_get (calculatedOffsetDTFCache st) zone), st))"

text \<open>
  The own properties of \<open>typeToPos\<close>. A part type naming an inherited property would give
  a function as \<open>pos\<close>, and \<open>filled[pos] = ...\<close> would then set a property that is not
  an index; the seven positions read afterwards are untouched, as for an unknown type.
\<close>

definition typeToPos :: "jsstring \<rightharpoonup> nat" where
  "typeToPos = map_of [(js ''year'', 0), (js ''month'', 1), (js ''day'', 2), (js ''era'', 3),
                       (js ''hour'', 4), (js ''minute'', 5), (js ''second'', 6)]"

text \<open>\<open>parseInt(value, 10)\<close>: leading white space, an optional sign, the leading digits.\<close>

definition parseInt10 :: "jsstring \<Rightarrow> jsnum" where
  "parseInt10 s =
     (let t = dropWhile isStrWhiteSpace s;
          neg = (take 1 t = [0x2D]);
          u = (if take 1 t = [0x2B] \<or> take 1 t = [0x2D] then drop 1 t else t);
          ds = takeWhile isDigit u
      in if ds = [] then NaN
         else Fin (if neg then - of_nat (digitsVal ds) else of_nat (digitsVal ds)))"

text \<open>The loop of \<open>partsOffset\<close> over the parts, \<open>filled\<close> being the array built so far.\<close>

fun fill :: "(jsstring \<times> jsstring) list \<Rightarrow> jsval list \<Rightarrow> jsval list" where
  "fill [] filled = filled"
| "fill ((type, val) # parts) filled =
     fill parts
       (let pos = typeToPos type in
        if type = js ''era'' then
          (case pos of Some p \<Rightarrow> filled[p := VStr val] | None \<Rightarrow> filled)
        else
          (case pos of Some p \<Rightarrow> filled[p := VNum (parseInt10 val)] | None \<Rightarrow> filled))"

text \<open>
  \<open>partsOffset\<close>, given the method \<open>dtf.formatToParts\<close>. The result is read at the
  positions 0 to 6 only; a position never written is \<open>undefined\<close>.
\<close>

definition partsOffset ::
  "(jsnum \<Rightarrow> js_error + (jsstring \<times> jsstring) list) \<Rightarrow> jsnum \<Rightarrow> js_error + jsval list" where
  "partsOffset ftp date =
     (case ftp date of
        Inl e \<Rightarrow> Inl e
      | Inr formatted \<Rightarrow> Inr (fill formatted (replicate 7 VUndefined)))"

text \<open>
  The expression \<open>/(\d+)\/(\d+)\/(\d+) (AD|BC),? (\d+):(\d+):(\d+)/\<close>. Each \<open>\d+\<close> is
  followed by a character that is not a digit or ends the expression, so only the longest
  run of digits can match; \<open>match_here\<close> matches at the start of the text and
  \<open>regex_exec\<close> tries every start from the left, as \<open>exec\<close> does. The result is the
  list of the seven groups in the order of the expression.
\<close>

definition digitRun :: "jsstring \<Rightarrow> (jsstring \<times> jsstring) option" where
  "digitRun s = (if takeWhile isDigit s = [] then None
                 else Some (takeWhile isDigit s, dropWhile isDigit s))"

definition lit :: "string \<Rightarrow> jsstring \<Rightarrow> jsstring option" where
  "lit p s = (if take (length p) s = js p then Some (drop (length p) s) else None)"

definition era :: "jsstring \<Rightarrow> (jsstring \<times> jsstring) option" where
  "era s = (if take 2 s = js ''AD'' \<or> take 2 s = js ''BC'' then Some (take 2 s, drop 2 s)
            else None)"

definition optComma :: "jsstring \<Rightarrow> jsstring" where
  "optComma s = (if take 1 s = js '','' then drop 1 s else s)"

definition match_here :: "jsstring \<Rightarrow> jsstring list option" where
  "match_here s = do {
     (fMonth, s1) \<leftarrow> digitRun s;
     s2 \<leftarrow> lit ''/'' s1;
     (fDay, s3) \<leftarrow> digitRun s2;
     s4 \<leftarrow> lit ''/'' s3;
     (fYear, s5) \<leftarrow> digitRun s4;
     s6 \<leftarrow> lit '' '' s5;
     (fadOrBc, s7) \<leftarrow> era s6;
     s8 \<leftarrow> lit '' '' (optComma s7);
     (fHour, s9) \<leftarrow> digitRun s8;
     s10 \<leftarrow> lit '':'' s9;
     (fMinute, s11) \<leftarrow> digitRun s10;
     s12 \<leftarrow> lit '':'' s11;
     (fSecond, s13) \<leftarrow> digitRun s12;
     Some [fMonth, fDay, fYear, fadOrBc, fHour, fMinute, fSecond]
   }"

fun regex_exec :: "jsstring \<Rightarrow> jsstring list option" where
  "regex_exec [] = None"
| "regex_exec (c # cs) =
     (case match_here (c # cs) of Some groups \<Rightarrow> Some groups | None \<Rightarrow> regex_exec cs)"

text \<open>
  \<open>hackyOffset\<close>: the fields are the captured strings. Destructuring \<open>null\<close> (no
  match) raises a TypeError.
\<close>

definition hackyOffset :: "'f env \<Rightarrow> 'f slot \<Rightarrow> jsnum \<Rightarrow> js_error + jsval list" where
  "hackyOffset env dtf date =
     (case call_format env dtf date of
        Inl e \<Rightarrow> Inl e
      | Inr text \<Rightarrow>
          (let formatted = filter (\<lambda>c. c \<noteq> 0x200E) text in
           case regex_exec formatted of
             Some [fMonth, fDay, fYear, fadOrBc, fHour, fMinute, fSecond] \<Rightarrow>
               Inr (map VStr [fYear, fMonth, fDay, fadOrBc, fHour, fMinute, fSecond])
           | _ \<Rightarrow> Inl TypeError))"

text \<open>
  \<open>new Date(ts)\<close> on a number: the time value is \<open>ts\<close> truncated to an integer, or
  invalid (\<open>None\<close>, for which \<open>isNaN(date)\<close> holds) beyond 8.64e15 in magnitude.
\<close>

definition newDate :: "jsnum \<Rightarrow> int option" where
  "newDate ts =
     (case ts of
        NaN \<Rightarrow> None
      | Fin r \<Rightarrow> (if \<bar>r\<bar> > 8640000000000000 then None
                  else Some (if r \<ge> 0 then \<lfloor>r\<rfloor> else \<lceil>r\<rceil>)))"

text \<open>\<open>a % b\<close> on integers: the result has the sign of \<open>a\<close>.\<close>

definition js_rem :: "int \<Rightarrow> int \<Rightarrow> int" where
  "js_rem a b = sgn a * (\<bar>a\<bar> mod \<bar>b\<bar>)"

text \<open>\<open>ToNumber\<close> of a field, as \<open>Math.abs\<close> applies it.\<close>

fun toNumber :: "jsval \<Rightarrow> jsnum" where
  "toNumber VUndefined = NaN"
| "toNumber (VNum n) = n"
| "toNumber (VStr s) = js_Number s"

fun jsabs :: "jsnum \<Rightarrow> jsnum" where
  "jsabs NaN = NaN"
| "jsabs (Fin a) = Fin \<bar>a\<bar>"

fun jsneg :: "jsnum \<Rightarrow> jsnum" where
  "jsneg NaN = NaN"
| "jsneg (Fin a) = Fin (- a)"

text \<open>
  The part of \<open>calculatedOffset\<close> after the destructuring: the object handed to
  \<open>objToLocalTS\<close>. Both \<open>partsOffset\<close> and \<open>hackyOffset\<close> return seven positions;
  the second case is for lists of another length, which they never return.
\<close>

definition localFields :: "jsval list \<Rightarrow> fields" where
  "localFields parsed =
     (case parsed of
        [year0, month0, day0, adOrBc, hour0, minute0, second0] \<Rightarrow>
          (let year1 = (if adOrBc = VStr (js ''BC'')
                        then VNum (jsadd (jsneg (jsabs (toNumber year0))) (Fin 1))
                        else year0);
               adjustedHour = (if hour0 = VNum (Fin 24) then VNum (Fin 0) else hour0)
           in \<lparr> year = year1, month = month0, day = day0, hour = adjustedHour,
                minute = minute0, second = second0, millisecond = VNum (Fin 0) \<rparr>)
      | _ \<Rightarrow> \<lparr> year = VUndefined, month = VUndefined, day = VUndefined, hour = VUndefined,
               minute = VUndefined, second = VUndefined, millisecond = VNum (Fin 0) \<rparr>)"

text \<open>\<open>dtf.formatToParts\<close> read from whatever the cache returned.\<close>

fun get_formatToParts ::
  "'f env \<Rightarrow> 'f slot \<Rightarrow> (jsnum \<Rightarrow> js_error + (jsstring \<times> jsstring) list) option" where
  "get_formatToParts env (Own f) = formatToParts env f"
| "get_formatToParts env _ = None"

definition calculatedOffset ::
  "'f env \<Rightarrow> string \<Rightarrow> jsnum \<Rightarrow> 'f state \<Rightarrow> (js_error + jsnum) \<times> 'f state" where
  "calculatedOffset env zone ts st =
     (case newDate ts of
        None \<Rightarrow> (Inr NaN, st)
      | Some date \<Rightarrow>
          (case makeCalculatedOffsetDTF env zone st of
             (Inl e, st') \<Rightarrow> (Inl e, st')
           | (Inr dtf, st') \<Rightarrow>
               (case (case get_formatToParts env dtf of
                        Some ftp \<Rightarrow> partsOffset ftp (Fin (of_int date))
                      | None \<Rightarrow> hackyOffset env dtf (Fin (of_int date))) of
                  Inl e \<Rightarrow> (Inl e, st')
                | Inr parsed \<Rightarrow>
                    (let asUTC = objToLocalTS env (localFields parsed);
                         over = js_rem date 1000;
                         asTS = date - (if over \<ge> 0 then over else 1000 + over)
                     in (Inr (jsdiv (jssub asUTC (Fin (of_int asTS))) (Fin (60 * 1000))),
                         st')))))"

section \<open>The class \<open>IANAZone\<close>\<close>

text \<open>
  \<open>isValidZone\<close>: the empty string is the falsy string. \<open>.format()\<close> without an
  argument formats the current time.
\<close>

definition isValidZone :: "'f env \<Rightarrow> string \<Rightarrow> bool" where
  "isValidZone env zone =
     (if zone = [] then False
      else (case newDTF env Minimal zone of
              Inl e \<Rightarrow> False
            | Inr f \<Rightarrow> (case format env f (now env) of Inl e \<Rightarrow> False | Inr _ \<Rightarrow> True)))"

definition isValidSpecifier :: "'f env \<Rightarrow> string \<Rightarrow> bool" where
  "isValidSpecifier env s = isValidZone env s"

text \<open>The constructor: the new object, not yet stored anywhere.\<close>

definition new_IANAZone :: "'f env \<Rightarrow> string \<Rightarrow> IANAZone" where
  "new_IANAZone env name = \<lparr> zoneName = name, valid = isValidZone env name \<rparr>"

text \<open>
  \<open>create\<close>: the result is a reference to a zone object of the heap (\<open>Own r\<close>) or, when
  the name is an inherited property of the cache object, that inherited value. A new
  object gets the next free reference.
\<close>

definition create :: "'f env \<Rightarrow> string \<Rightarrow> 'f state \<Rightarrow> nat slot \<times> 'f state" where
  "create env name st =
     (if \<not> truthy (obj_get (ianaZoneCache st) name) then
        (let r = length (heap st);
             st' = st\<lparr>heap := heap st @ [new_IANAZone env name],
                      ianaZoneCache := (ianaZoneCache st)(name \<mapsto> r)\<rparr>
         in (obj_get (ianaZoneCache st') name, st'))
      else (obj_get (ianaZoneCache st) name, st))"

definition resetCache :: "'f state \<Rightarrow> 'f state" where
  "resetCache st = st\<lparr>ianaZoneCache := Map.empty,
                      calculatedOffsetDTFCache := Map.empty,
                      directOffsetDTFCache := Map.empty\<rparr>"

definition name :: "IANAZone \<Rightarrow> string" where
  "name this = zoneName this"

definition isValid :: "IANAZone \<Rightarrow> bool" where
  "isValid this = valid this"

definition isUniversal :: "IANAZone \<Rightarrow> bool" where
  "isUniversal this = False"

text \<open>
  The body of the \<open>try\<close> block of \<open>offset\<close>: the three calls are chained by \<open>||\<close>, so
  a call is made only when the ones before it returned the expected value. \<open>Inr ()\<close>
  means that the end of the block is reached.
\<close>

definition probe :: "'f env \<Rightarrow> 'f state \<Rightarrow> (js_error + unit) \<times> 'f state" where
  "probe env st =
     (let ts = now env in
      case directOffset env ''Etc/GMT'' ts st of
        (Inl e, st1) \<Rightarrow> (Inl e, st1)
      | (Inr r1, st1) \<Rightarrow>
          if strict_neq r1 (Fin 0) then (Inl (Error ''Invalid offset''), st1)
          else
            (case directOffset env ''Etc/GMT+1'' ts st1 of
               (Inl e, st2) \<Rightarrow> (Inl e, st2)
             | (Inr r2, st2) \<Rightarrow>
                 if strict_neq r2 (Fin (- 60)) then (Inl (Error ''Invalid offset''), st2)
                 else
                   (case directOffset env ''Etc/GMT-1'' ts st2 of
                      (Inl e, st3) \<Rightarrow> (Inl e, st3)
                    | (Inr r3, st3) \<Rightarrow>
                        if strict_neq r3 (Fin 60) then (Inl (Error ''Invalid offset''), st3)
                        else (Inr (), st3))))"

text \<open>The \<open>if (offsetFunc === undefined)\<close> statement of \<open>offset\<close>.\<close>

definition selectStrategy :: "'f env \<Rightarrow> 'f state \<Rightarrow> 'f state" where
  "selectStrategy env st =
     (if offsetFunc st = None then
        (case probe env st of
           (Inr _, st') \<Rightarrow> st'\<lparr>offsetFunc := Some Direct\<rparr>
         | (Inl e, st') \<Rightarrow> st'\<lparr>offsetFunc := Some Calculated\<rparr>)
      else st)"

fun resolver ::
  "strategy \<Rightarrow> 'f env \<Rightarrow> string \<Rightarrow> jsnum \<Rightarrow> 'f state \<Rightarrow> (js_error + jsnum) \<times> 'f state" where
  "resolver Direct = directOffset"
| "resolver Calculated = calculatedOffset"

definition offset ::
  "'f env \<Rightarrow> IANAZone \<Rightarrow> jsnum \<Rightarrow> 'f state \<Rightarrow> (js_error + jsnum) \<times> 'f state" where
  "offset env this ts st =
     (let st' = selectStrategy env st in
      case offsetFunc st' of
        Some f \<Rightarrow> resolver f env (name this) ts st'
      | None \<Rightarrow> (Inl TypeError, st'))"

section \<open>Sequences of calls\<close>

text \<open>
  What a client can do to the module state: the static methods, and \<open>offset(ts)\<close> on a
  zone object of a given name (the method reads nothing but \<open>this.name\<close>).
  \<open>isValidZone\<close> writes no module variable.
\<close>

datatype call = Create string | ResetCache | IsValidZone string | Offset string jsnum

fun step :: "'f env \<Rightarrow> call \<Rightarrow> 'f state \<Rightarrow> 'f state" where
  "step env (Create n) st = snd (create env n st)"
| "step env ResetCache st = resetCache st"
| "step env (IsValidZone z) st = st"
| "step env (Offset n ts) st = snd (offset env (new_IANAZone env n) ts st)"

definition run :: "'f env \<Rightarrow> call list \<Rightarrow> 'f state \<Rightarrow> 'f state" where
  "run env calls st = foldl (\<lambda>s c. step env c s) st calls"

section \<open>A platform to run the code on\<close>

text \<open>
  Modelled from the spec: \<open>objToLocalTS\<close> of \<open>impl/util.js\<close>, which is not among the
  sources. The spec (4.4, step 5): interpret the tuple (year, month, day, hour, minute,
  second, millisecond) as if it were expressed in UTC and convert it to an epoch
  timestamp using standard proleptic Gregorian calendar rules. Each field is converted to
  a number and truncated to an integer; a field that is not a number gives \<open>NaN\<close>.
\<close>

definition days_from_civil :: "int \<Rightarrow> int \<Rightarrow> int \<Rightarrow> int" where
  "days_from_civil y0 m0 d =
     (let y1 = y0 + (m0 - 1) div 12;
          m = (m0 - 1) mod 12 + 1;
          y = (if m \<le> 2 then y1 - 1 else y1);
          era = y div 400;
          yoe = y - era * 400;
          doy = (153 * (if m > 2 then m - 3 else m + 9) + 2) div 5 + d - 1;
          doe = yoe * 365 + yoe div 4 - yoe div 100 + doy
      in era * 146097 + doe - 719468)"

definition toInteger :: "jsval \<Rightarrow> int option" where
  "toInteger v = (case toNumber v of
                    NaN \<Rightarrow> None
                  | Fin r \<Rightarrow> Some (if r \<ge> 0 then \<lfloor>r\<rfloor> else \<lceil>r\<rceil>))"

definition utcOfFields :: "fields \<Rightarrow> jsnum" where
  "utcOfFields obj =
     (case (toInteger (year obj), toInteger (month obj), toInteger (day obj),
            toInteger (hour obj), toInteger (minute obj), toInteger (second obj),
            toInteger (millisecond obj)) of
        (Some y, Some mo, Some d, Some h, Some mi, Some s, Some ms) \<Rightarrow>
          Fin (of_int ((((days_from_civil y mo d * 24 + h) * 60 + mi) * 60 + s) * 1000 + ms))
      | _ \<Rightarrow> NaN)"

text \<open>
  A formatting oracle for a world of fixed offsets, printing as \<open>en-US\<close> engines do. It
  knows the zones below, each at its offset (in seconds) of 1 January 1970, and rejects
  every other name with a RangeError at construction. A formatter is its option set and
  its zone.
\<close>

datatype sample_dtf = SampleDTF shape string

definition sample_zones :: "(string \<times> int) list" where
  "sample_zones = [(''Etc/GMT'', 0), (''Etc/GMT+1'', - 3600), (''Etc/GMT-1'', 3600),
                   (''Asia/Kolkata'', 19800), (''Africa/Monrovia'', - 2670)]"

definition civil_from_days :: "int \<Rightarrow> int \<times> int \<times> int" where
  "civil_from_days z0 =
     (let z = z0 + 719468;
          era = z div 146097;
          doe = z - era * 146097;
          yoe = (doe - doe div 1460 + doe div 36524 - doe div 146096) div 365;
          y = yoe + era * 400;
          doy = doe - (365 * yoe + yoe div 4 - yoe div 100);
          mp = (5 * doy + 2) div 153;
          d = doy - (153 * mp + 2) div 5 + 1;
          m = (if mp < 10 then mp + 3 else mp - 9)
      in (if m \<le> 2 then y + 1 else y, m, d))"

definition digit :: "nat \<Rightarrow> 16 word" where
  "digit n = of_nat (48 + n mod 10)"

definition pad2 :: "nat \<Rightarrow> jsstring" where
  "pad2 n = [digit (n div 10), digit n]"

fun decimal :: "nat \<Rightarrow> jsstring" where
  "decimal n = (if n < 10 then [digit n] else decimal (n div 10) @ [digit n])"

declare decimal.simps [simp del]

text \<open>The offset token of the \<open>longOffset\<close> style for an offset in seconds.\<close>

definition gmtToken :: "int \<Rightarrow> jsstring" where
  "gmtToken off =
     (if off = 0 then js ''GMT''
      else (let a = nat \<bar>off\<bar> in
            js ''GMT'' @ js (if off < 0 then ''-'' else ''+'')
            @ pad2 (a div 3600) @ js '':'' @ pad2 (a mod 3600 div 60)
            @ (if a mod 60 = 0 then [] else js '':'' @ pad2 (a mod 60))))"

text \<open>
  The wall clock of the zone at time value \<open>t\<close> (milliseconds): year of the era, month,
  day, era, hour, minute, second. \<open>h24\<close> is the quirk of some engines that print
  midnight as hour 24.
\<close>

definition wallClock :: "bool \<Rightarrow> int \<Rightarrow> int \<Rightarrow> nat \<times> nat \<times> nat \<times> string \<times> nat \<times> nat \<times> nat" where
  "wallClock h24 off t =
     (let secs = t div 1000 + off;
          (y, m, d) = civil_from_days (secs div 86400);
          sod = secs mod 86400;
          h = sod div 3600
      in (nat (if y \<le> 0 then 1 - y else y), nat m, nat d, if y \<le> 0 then ''BC'' else ''AD'',
          nat (if h24 \<and> h = 0 then 24 else h), nat (sod mod 3600 div 60), nat (sod mod 60)))"

definition sample_parts :: "bool \<Rightarrow> int \<Rightarrow> int \<Rightarrow> (jsstring \<times> jsstring) list" where
  "sample_parts h24 off t =
     (case wallClock h24 off t of
        (y, m, d, e, h, mi, s) \<Rightarrow>
          [(js ''month'', pad2 m), (js ''literal'', js ''/''), (js ''day'', pad2 d),
           (js ''literal'', js ''/''), (js ''year'', decimal y), (js ''literal'', js '' ''),
           (js ''era'', js e), (js ''literal'', js '', ''), (js ''hour'', pad2 h),
           (js ''literal'', js '':''), (js ''minute'', pad2 mi), (js ''literal'', js '':''),
           (js ''second'', pad2 s)])"

definition sample_text :: "bool \<Rightarrow> shape \<Rightarrow> int \<Rightarrow> int \<Rightarrow> jsstring" where
  "sample_text h24 sh off t =
     (case sh of
        WallClock \<Rightarrow> concat (map snd (sample_parts h24 off t))
      | LongOffset \<Rightarrow>
          (case wallClock h24 off t of
             (y, m, d, e, h, mi, s) \<Rightarrow> decimal y @ js '', '' @ gmtToken off)
      | Minimal \<Rightarrow>
          (case wallClock h24 off t of
             (y, m, d, e, h, mi, s) \<Rightarrow> decimal m @ js ''/'' @ decimal d @ js ''/'' @ decimal y))"

definition sample_format :: "bool \<Rightarrow> sample_dtf \<Rightarrow> jsnum \<Rightarrow> js_error + jsstring" where
  "sample_format h24 f x =
     (case f of
        SampleDTF sh zone \<Rightarrow>
          (case (map_of sample_zones zone, newDate x) of
             (Some off, Some t) \<Rightarrow> Inr (sample_text h24 sh off t)
           | _ \<Rightarrow> Inl RangeError))"

definition sample_formatToParts ::
  "bool \<Rightarrow> sample_dtf \<Rightarrow> jsnum \<Rightarrow> js_error + (jsstring \<times> jsstring) list" where
  "sample_formatToParts h24 f x =
     (case f of
        SampleDTF sh zone \<Rightarrow>
          (case (map_of sample_zones zone, newDate x) of
             (Some off, Some t) \<Rightarrow> Inr (sample_parts h24 off t)
           | _ \<Rightarrow> Inl RangeError))"

text \<open>
  The platform. \<open>longOffset\<close>: the engine supports \<open>timeZoneName: "longOffset"\<close> (an
  engine that does not raises a RangeError when such a formatter is constructed);
  \<open>parts\<close>: formatters have \<open>formatToParts\<close>; \<open>h24\<close>: midnight is printed as hour 24.
  The clock stands at 14 November 2023, 22:13:20 UTC.
\<close>

definition platform :: "bool \<Rightarrow> bool \<Rightarrow> bool \<Rightarrow> sample_dtf env" where
  "platform longOffset parts h24 =
     \<lparr> newDTF = (\<lambda>sh zone.
          if sh = LongOffset \<and> \<not> longOffset then Inl RangeError
          else if map_of sample_zones zone = None then Inl RangeError
          else Inr (SampleDTF sh zone)),
       format = sample_format h24,
       formatToParts = (\<lambda>f. if parts then Some (sample_formatToParts h24 f) else None),
       objToLocalTS = utcOfFields,
       now = Fin 1700000000000 \<rparr>"

abbreviation modern :: "sample_dtf env" where
  "modern \<equiv> platform True True False"

abbreviation legacy :: "sample_dtf env" where
  "legacy \<equiv> platform False False False"

section \<open>Properties\<close>

subsection \<open>Reading and writing a plain object\<close>

lemma truthy_obj_get:
  "truthy (obj_get m k) \<longleftrightarrow> m k \<noteq> None \<or> k \<in> set object_prototype_keys"
  by (auto simp: obj_get_def split: option.splits)

lemma obj_get_upd_same: "obj_get (m(k \<mapsto> v)) k = Own v"
  by (simp add: obj_get_def)

lemma obj_get_upd_other: "k' \<noteq> k \<Longrightarrow> obj_get (m(k \<mapsto> v)) k' = obj_get m k'"
  by (simp add: obj_get_def)

subsection \<open>The formatter caches\<close>

lemma makeDirect_hit:
  "truthy (obj_get (directOffsetDTFCache st) z) \<Longrightarrow>
   makeDirectOffsetDTF env z st = (Inr (obj_get (directOffsetDTFCache st) z), st)"
  by (simp add: makeDirectOffsetDTF_def)

lemma makeDirect_miss_err:
  "\<not> truthy (obj_get (directOffsetDTFCache st) z) \<Longrightarrow> newDTF env LongOffset z = Inl e \<Longrightarrow>
   makeDirectOffsetDTF env z st = (Inl e, st)"
  by (simp add: makeDirectOffsetDTF_def)

lemma makeDirect_miss_ok:
  "\<not> truthy (obj_get (directOffsetDTFCache st) z) \<Longrightarrow> newDTF env LongOffset z = Inr f \<Longrightarrow>
   makeDirectOffsetDTF env z st =
     (Inr (Own f), st\<lparr>directOffsetDTFCache := (directOffsetDTFCache st)(z \<mapsto> f)\<rparr>)"
  by (simp add: makeDirectOffsetDTF_def Let_def obj_get_upd_same)

lemma makeCalculated_hit:
  "truthy (obj_get (calculatedOffsetDTFCache st) z) \<Longrightarrow>
   makeCalculatedOffsetDTF env z st = (Inr (obj_get (calculatedOffsetDTFCache st) z), st)"
  by (simp add: makeCalculatedOffsetDTF_def)

lemma makeCalculated_miss_err:
  "\<not> truthy (obj_get (calculatedOffsetDTFCache st) z) \<Longrightarrow> newDTF env WallClock z = Inl e \<Longrightarrow>
   makeCalculatedOffsetDTF env z st = (Inl e, st)"
  by (simp add: makeCalculatedOffsetDTF_def)

lemma makeCalculated_miss_ok:
  "\<not> truthy (obj_get (calculatedOffsetDTFCache st) z) \<Longrightarrow> newDTF env WallClock z = Inr f \<Longrightarrow>
   makeCalculatedOffsetDTF env z st =
     (Inr (Own f), st\<lparr>calculatedOffsetDTFCache := (calculatedOffsetDTFCache st)(z \<mapsto> f)\<rparr>)"
  by (simp add: makeCalculatedOffsetDTF_def Let_def obj_get_upd_same)

text \<open>Each resolver writes its own formatter cache and nothing else.\<close>

lemma makeDirect_writes:
  "snd (makeDirectOffsetDTF env z st) =
     st\<lparr>directOffsetDTFCache := directOffsetDTFCache (snd (makeDirectOffsetDTF env z st))\<rparr>"
  by (simp add: makeDirectOffsetDTF_def Let_def split: sum.splits)

lemma makeCalculated_writes:
  "snd (makeCalculatedOffsetDTF env z st) =
     st\<lparr>calculatedOffsetDTFCache :=
          calculatedOffsetDTFCache (snd (makeCalculatedOffsetDTF env z st))\<rparr>"
  by (simp add: makeCalculatedOffsetDTF_def Let_def split: sum.splits)

lemma direct_state: "snd (directOffset env z ts st) = snd (makeDirectOffsetDTF env z st)"
  by (simp add: directOffset_def Let_def split: prod.splits sum.splits)

lemma calculated_state:
  "snd (calculatedOffset env z ts st) =
     (if newDate ts = None then st else snd (makeCalculatedOffsetDTF env z st))"
  by (simp add: calculatedOffset_def Let_def split: prod.splits sum.splits option.splits)

lemma direct_writes:
  "snd (directOffset env z ts st) =
     st\<lparr>directOffsetDTFCache := directOffsetDTFCache (snd (directOffset env z ts st))\<rparr>"
  unfolding direct_state by (rule makeDirect_writes)

lemma calculated_writes:
  "snd (calculatedOffset env z ts st) =
     st\<lparr>calculatedOffsetDTFCache := calculatedOffsetDTFCache (snd (calculatedOffset env z ts st))\<rparr>"
  unfolding calculated_state using makeCalculated_writes [of env z st] by simp

lemma direct_frame:
  "ianaZoneCache (snd (directOffset env z ts st)) = ianaZoneCache st"
  "heap (snd (directOffset env z ts st)) = heap st"
  "offsetFunc (snd (directOffset env z ts st)) = offsetFunc st"
  "calculatedOffsetDTFCache (snd (directOffset env z ts st)) = calculatedOffsetDTFCache st"
  by (subst direct_writes, simp)+

lemma calculated_frame:
  "ianaZoneCache (snd (calculatedOffset env z ts st)) = ianaZoneCache st"
  "heap (snd (calculatedOffset env z ts st)) = heap st"
  "offsetFunc (snd (calculatedOffset env z ts st)) = offsetFunc st"
  "directOffsetDTFCache (snd (calculatedOffset env z ts st)) = directOffsetDTFCache st"
  by (subst calculated_writes, simp)+

lemma resolver_frame:
  "ianaZoneCache (snd (resolver f env z ts st)) = ianaZoneCache st"
  "heap (snd (resolver f env z ts st)) = heap st"
  "offsetFunc (snd (resolver f env z ts st)) = offsetFunc st"
  by (cases f; simp add: direct_frame calculated_frame)+

lemma direct_frame_eq:
  "directOffset env z ts st = (r, st') \<Longrightarrow>
   ianaZoneCache st' = ianaZoneCache st \<and> heap st' = heap st \<and> offsetFunc st' = offsetFunc st
   \<and> calculatedOffsetDTFCache st' = calculatedOffsetDTFCache st"
  using direct_frame [of env z ts st] by simp

lemma probe_frame:
  "ianaZoneCache (snd (probe env st)) = ianaZoneCache st"
  "heap (snd (probe env st)) = heap st"
  "offsetFunc (snd (probe env st)) = offsetFunc st"
  "calculatedOffsetDTFCache (snd (probe env st)) = calculatedOffsetDTFCache st"
  by (auto simp: probe_def Let_def split: prod.splits sum.splits dest!: direct_frame_eq)

lemma selectStrategy_frame:
  "ianaZoneCache (selectStrategy env st) = ianaZoneCache st"
  "heap (selectStrategy env st) = heap st"
  using probe_frame(1,2) [of env st]
  by (auto simp: selectStrategy_def split: prod.splits sum.splits)

lemma selectStrategy_resolved: "offsetFunc (selectStrategy env st) \<noteq> None"
  by (auto simp: selectStrategy_def split: prod.splits sum.splits)

lemma selectStrategy_idle: "offsetFunc st = Some f \<Longrightarrow> selectStrategy env st = st"
  by (simp add: selectStrategy_def)

lemma offset_frame:
  "ianaZoneCache (snd (offset env this ts st)) = ianaZoneCache st"
  "heap (snd (offset env this ts st)) = heap st"
  using selectStrategy_resolved [of env st]
  by (auto simp: offset_def Let_def resolver_frame selectStrategy_frame split: option.splits)

subsection \<open>The identity cache\<close>

lemma create_hit:
  "truthy (obj_get (ianaZoneCache st) n) \<Longrightarrow> create env n st = (obj_get (ianaZoneCache st) n, st)"
  by (simp add: create_def)

lemma create_miss:
  "\<not> truthy (obj_get (ianaZoneCache st) n) \<Longrightarrow>
   create env n st =
     (Own (length (heap st)),
      st\<lparr>heap := heap st @ [new_IANAZone env n],
         ianaZoneCache := (ianaZoneCache st)(n \<mapsto> length (heap st))\<rparr>)"
  by (simp add: create_def Let_def obj_get_upd_same)

lemma create_result_cached:
  "obj_get (ianaZoneCache (snd (create env n st))) n = fst (create env n st)"
  by (cases "truthy (obj_get (ianaZoneCache st) n)") (simp_all add: create_hit create_miss obj_get_upd_same)

lemma create_result_truthy: "truthy (fst (create env n st))"
  by (cases "truthy (obj_get (ianaZoneCache st) n)") (simp_all add: create_hit create_miss)

lemma create_keeps_truthy:
  "truthy (obj_get (ianaZoneCache st) k) \<Longrightarrow>
   obj_get (ianaZoneCache (snd (create env n st))) k = obj_get (ianaZoneCache st) k"
proof (cases "truthy (obj_get (ianaZoneCache st) n)")
  case True
  then show ?thesis by (simp add: create_hit)
next
  case False
  assume "truthy (obj_get (ianaZoneCache st) k)"
  with False have "k \<noteq> n" by auto
  then show ?thesis using False by (simp add: create_miss obj_get_upd_other)
qed

lemma step_keeps_truthy:
  "c \<noteq> ResetCache \<Longrightarrow> truthy (obj_get (ianaZoneCache st) k) \<Longrightarrow>
   obj_get (ianaZoneCache (step env c st)) k = obj_get (ianaZoneCache st) k"
  by (cases c) (simp_all add: create_keeps_truthy offset_frame)

lemma run_keeps_truthy:
  "ResetCache \<notin> set calls \<Longrightarrow> truthy (obj_get (ianaZoneCache st) k) \<Longrightarrow>
   obj_get (ianaZoneCache (run env calls st)) k = obj_get (ianaZoneCache st) k"
proof (induction calls arbitrary: st)
  case Nil
  then show ?case by (simp add: run_def)
next
  case (Cons c calls)
  have c: "c \<noteq> ResetCache" and rest: "ResetCache \<notin> set calls" using Cons.prems(1) by auto
  have keep: "obj_get (ianaZoneCache (step env c st)) k = obj_get (ianaZoneCache st) k"
    using step_keeps_truthy [OF c Cons.prems(2)] .
  then have "truthy (obj_get (ianaZoneCache (step env c st)) k)" using Cons.prems(2) by simp
  from Cons.IH [OF rest this] keep show ?case by (simp add: run_def)
qed

text \<open>Inherited names never become own properties of the identity cache.\<close>

lemma step_inherited_unset:
  "k \<in> set object_prototype_keys \<Longrightarrow> ianaZoneCache st k = None \<Longrightarrow>
   ianaZoneCache (step env c st) k = None"
proof (cases c)
  case (Create n)
  assume k: "k \<in> set object_prototype_keys" and none: "ianaZoneCache st k = None"
  show ?thesis
  proof (cases "truthy (obj_get (ianaZoneCache st) n)")
    case True
    then show ?thesis using none Create by (simp add: create_hit)
  next
    case False
    then have "n \<noteq> k" using k by (auto simp: truthy_obj_get)
    then show ?thesis using none Create False by (simp add: create_miss)
  qed
qed (simp_all add: offset_frame resetCache_def)

lemma run_inherited_unset:
  "k \<in> set object_prototype_keys \<Longrightarrow> ianaZoneCache st k = None \<Longrightarrow>
   ianaZoneCache (run env calls st) k = None"
proof (induction calls arbitrary: st)
  case Nil
  then show ?case by (simp add: run_def)
next
  case (Cons c calls)
  from Cons.IH [OF Cons.prems(1) step_inherited_unset [OF Cons.prems]]
  show ?case by (simp add: run_def)
qed

subsection \<open>Claims about the identity cache\<close>

text \<open>
  C10: for a name that is an inherited property of a plain object (such as \<open>toString\<close>,
  \<open>constructor\<close> or \<open>__proto__\<close>), after any sequence of calls, \<open>create(name)\<close>
  returns the inherited value and leaves the state as it is: no zone object is
  constructed (the heap is unchanged, so the validator is not run for it) and nothing is
  stored under the name.
\<close>

theorem create_inherited_property:
  assumes "k \<in> set object_prototype_keys"
  shows "create env k (run env calls init) = (Inherited k, run env calls init)
         \<and> ianaZoneCache (run env calls init) k = None
         \<and> heap (snd (create env k (run env calls init))) = heap (run env calls init)"
proof -
  have none: "ianaZoneCache (run env calls init) k = None"
    using run_inherited_unset [OF assms, of init env calls] by (simp add: init_def)
  then have get: "obj_get (ianaZoneCache (run env calls init)) k = Inherited k"
    using assms by (simp add: obj_get_def)
  then show ?thesis using none by (simp add: create_hit)
qed

theorem create_inherited_property_witness:
  "''toString'' \<in> set object_prototype_keys
   \<and> create modern ''toString'' (run modern [Create ''toString'', Create ''Etc/GMT''] init)
       = (Inherited ''toString'', run modern [Create ''toString'', Create ''Etc/GMT''] init)
   \<and> ianaZoneCache (run modern [Create ''toString'', Create ''Etc/GMT''] init) ''toString'' = None"
proof -
  have h: "''toString'' \<in> set object_prototype_keys" by (simp add: object_prototype_keys_def)
  from create_inherited_property [OF h, of modern "[Create ''toString'', Create ''Etc/GMT'']"] h
  show ?thesis by blast
qed

text \<open>
  C6: two calls of \<open>create(name)\<close> return the identical object (the same reference, or
  the same inherited value), whatever calls other than \<open>resetCache()\<close> are made in
  between.
\<close>

theorem create_twice_same_identity:
  assumes "ResetCache \<notin> set calls"
  shows "fst (create env n (run env calls (snd (create env n st)))) = fst (create env n st)"
proof -
  let ?st1 = "snd (create env n st)"
  have t: "truthy (obj_get (ianaZoneCache ?st1) n)"
    by (simp add: create_result_cached create_result_truthy)
  have "obj_get (ianaZoneCache (run env calls ?st1)) n = fst (create env n st)"
    using run_keeps_truthy [OF assms t] by (simp add: create_result_cached)
  moreover have "truthy (obj_get (ianaZoneCache (run env calls ?st1)) n)"
    using run_keeps_truthy [OF assms t] t by simp
  ultimately show ?thesis by (simp add: create_hit)
qed

theorem create_twice_same_identity_witness:
  "ResetCache \<notin> set [Create ''Etc/GMT+1'', Offset ''Asia/Kolkata'' (Fin 0)]
   \<and> fst (create modern ''Asia/Kolkata''
            (run modern [Create ''Etc/GMT+1'', Offset ''Asia/Kolkata'' (Fin 0)]
               (snd (create modern ''Asia/Kolkata'' init))))
       = fst (create modern ''Asia/Kolkata'' init)
   \<and> fst (create modern ''Asia/Kolkata'' init) = Own 0"
proof -
  have h: "ResetCache \<notin> set [Create ''Etc/GMT+1'', Offset ''Asia/Kolkata'' (Fin 0)]" by simp
  have v: "fst (create modern ''Asia/Kolkata'' init) = Own 0"
    by (simp add: create_def init_def obj_get_def object_prototype_keys_def Let_def)
  from create_twice_same_identity [OF h, of modern "''Asia/Kolkata''" init] h v
  show ?thesis by blast
qed

subsection \<open>Text primitives\<close>

lemma js_GMT: "js ''GMT'' = [71, 77, 84]"
  by (simp add: js_def)

lemma search_GMT_here: "search_GMT (js ''GMT'' @ rest) = 0"
  by (simp add: js_GMT)

lemma search_GMT_skip:
  "71 \<notin> set pre \<Longrightarrow> search_GMT (pre @ js ''GMT'' @ rest) = int (length pre)"
proof (induction pre)
  case Nil
  then show ?case by (simp add: search_GMT_here)
next
  case (Cons c pre)
  then have "c \<noteq> 71" and "71 \<notin> set pre" by auto
  then show ?case using Cons.IH by (simp add: js_GMT Let_def)
qed

lemma search_GMT_lower: "- 1 \<le> search_GMT s"
  by (induction s) (auto simp: Let_def)

lemma slice_append:
  assumes "0 \<le> a" "a \<le> b"
  shows "slice (pre @ xs) (int (length pre) + a) (int (length pre) + b)
         = take (nat (b - a)) (drop (nat a) xs)"
proof (cases "nat a \<le> length xs")
  case True
  have fr: "min (int (length pre) + a) (int (length (pre @ xs))) = int (length pre) + a"
    using True assms by auto
  have "take (nat (min (int (length pre) + b) (int (length (pre @ xs))) - (int (length pre) + a)))
          (drop (nat a) xs) = take (nat (b - a)) (drop (nat a) xs)"
  proof (cases "nat b \<le> length xs")
    case True
    then have "min (int (length pre) + b) (int (length (pre @ xs))) = int (length pre) + b"
      using assms by auto
    then show ?thesis by simp
  next
    case False
    then have m: "min (int (length pre) + b) (int (length (pre @ xs))) = int (length (pre @ xs))"
      using assms by auto
    have "length (drop (nat a) xs) \<le> nat (int (length (pre @ xs)) - (int (length pre) + a))"
      using assms by simp
    moreover have "length (drop (nat a) xs) \<le> nat (b - a)"
      using False assms by simp
    ultimately show ?thesis unfolding m by simp
  qed
  moreover have "drop (nat (int (length pre) + a)) (pre @ xs) = drop (nat a) xs"
    using assms by (simp add: nat_add_distrib)
  ultimately show ?thesis using assms fr by (simp add: slice_def Let_def del: length_append)
next
  case False
  then have "min (int (length pre) + a) (int (length (pre @ xs))) = int (length (pre @ xs))"
    using assms by auto
  then show ?thesis using False assms by (simp add: slice_def Let_def del: length_append)
qed

lemma charCodeAt_append:
  "charCodeAt (pre @ xs) (int (length pre) + int k)
   = (if k < length xs then Fin (of_nat (unat (xs ! k))) else NaN)"
  by (simp add: charCodeAt_def nth_append nat_add_distrib)

subsection \<open>Digits\<close>

lemma digit_unat: "unat (digit k) = 48 + k mod 10"
proof -
  have "unat (digit k) = (48 + k mod 10) mod 2 ^ LENGTH(16)"
    unfolding digit_def by (rule unat_of_nat)
  moreover have "k mod 10 < 10" by simp
  then have "48 + k mod 10 < (65536::nat)" by linarith
  ultimately show ?thesis by simp
qed

lemma isDigit_digit: "isDigit (digit k)"
  by (simp add: isDigit_def word_le_nat_alt digit_unat)

lemma not_space_digit: "\<not> isStrWhiteSpace (digit k)"
proof -
  define r where "r = k mod 10"
  have r: "r < 10" by (simp add: r_def)
  have u: "unat (digit k) = 48 + r" by (simp add: digit_unat r_def)
  show ?thesis using r
    by (simp add: isStrWhiteSpace_def word_unat_eq_iff word_le_nat_alt u)
qed

lemma not_sign_digit: "digit k \<noteq> 0x2B" "digit k \<noteq> 0x2D" "digit k \<noteq> 71"
  by (simp_all add: word_unat_eq_iff digit_unat)

lemma js_Number_empty: "js_Number [] = Fin 0"
  by (simp add: js_Number_def trim_def)

lemma js_Number_pad2: "n < 100 \<Longrightarrow> js_Number (pad2 n) = Fin (of_nat n)"
proof -
  assume n: "n < 100"
  have t: "trim (pad2 n) = pad2 n"
    by (simp add: trim_def pad2_def not_space_digit)
  have "10 * (n div 10 mod 10) + n mod 10 = n" using n by simp
  then have v: "digitsVal (pad2 n) = n"
    by (simp add: digitsVal_def pad2_def digit_unat)
  show ?thesis
    unfolding js_Number_def t
    using v by (simp add: pad2_def Let_def isDigit_digit not_sign_digit [unfolded pad2_def])
qed

subsection \<open>The direct resolver on a located token\<close>

lemma direct_located:
  assumes mk: "makeDirectOffsetDTF env z st = (Inr dtf, st')"
    and fmt: "call_format env dtf ts = Inr (pre @ js ''GMT'' @ tail)"
    and loc: "search_GMT (pre @ js ''GMT'' @ tail) = int (length pre)"
  shows "directOffset env z ts st =
    (Inr (case tail of
            [] \<Rightarrow> Fin 0
          | c # r \<Rightarrow>
              jsmul (jssub (Fin 44) (Fin (of_nat (unat c))))
                (jsadd (jsadd (jsmul (js_Number (take 2 r)) (Fin 60))
                              (js_Number (take 2 (drop 3 r))))
                       (jsdiv (js_Number (take 2 (drop 6 r))) (Fin 60)))), st')"
proof -
  let ?xs = "js ''GMT'' @ tail"
  have len: "length (js ''GMT'') = 3" by (simp add: js_def)
  have cc: "charCodeAt (pre @ ?xs) (int (length pre) + 3)
            = (case tail of [] \<Rightarrow> NaN | c # r \<Rightarrow> Fin (of_nat (unat c)))"
    using charCodeAt_append [of pre ?xs 3] len
    by (cases tail) (simp_all add: nth_append)
  have s1: "slice (pre @ ?xs) (int (length pre) + 4) (int (length pre) + 6) = take 2 (drop 1 tail)"
    using slice_append [of 4 6 pre ?xs] len by simp
  have s2: "slice (pre @ ?xs) (int (length pre) + 7) (int (length pre) + 9) = take 2 (drop 4 tail)"
    using slice_append [of 7 9 pre ?xs] len by simp
  have s3: "slice (pre @ ?xs) (int (length pre) + 10) (int (length pre) + 12) = take 2 (drop 7 tail)"
    using slice_append [of 10 12 pre ?xs] len by simp
  show ?thesis
    by (simp add: directOffset_def mk fmt loc Let_def cc s1 s2 s3 split: list.splits)
qed

lemma direct_hhmm:
  assumes mk: "makeDirectOffsetDTF env z st = (Inr dtf, st')"
    and fmt: "call_format env dtf ts = Inr (pre @ js ''GMT'' @ sg # pad2 h @ js '':'' @ pad2 m @ rest)"
    and loc: "search_GMT (pre @ js ''GMT'' @ sg # pad2 h @ js '':'' @ pad2 m @ rest) = int (length pre)"
    and h: "h < 100" and m: "m < 100"
  shows "directOffset env z ts st =
    (Inr (jsmul (Fin (44 - of_nat (unat sg)))
            (jsadd (Fin (of_nat h * 60 + of_nat m))
                   (jsdiv (js_Number (take 2 (drop 1 rest))) (Fin 60)))), st')"
proof -
  have c: "js '':'' = [58]" by (simp add: js_def)
  have l: "length (pad2 h) = 2" "length (pad2 m) = 2" by (simp_all add: pad2_def)
  show ?thesis
    using direct_located [OF mk fmt loc] l
    by (simp add: c js_Number_pad2 h m)
qed

lemma gmtToken_split:
  "gmtToken off = js ''GMT'' @
     (if off = 0 then []
      else (if off < 0 then 0x2D else 0x2B) # pad2 (nat \<bar>off\<bar> div 3600) @ js '':''
           @ pad2 (nat \<bar>off\<bar> mod 3600 div 60)
           @ (if nat \<bar>off\<bar> mod 60 = 0 then [] else js '':'' @ pad2 (nat \<bar>off\<bar> mod 60)))"
  by (simp add: gmtToken_def Let_def js_def)

lemma hms_sum:
  fixes a :: nat
  shows "(of_nat (a div 3600) * 60 + of_nat (a mod 3600 div 60) + of_nat (a mod 60) / 60 :: rat)
         = of_nat a / 60"
proof -
  have "a = 3600 * (a div 3600) + 60 * (a mod 3600 div 60) + a mod 60"
  proof -
    have "a mod 3600 mod 60 = a mod 60" by (simp add: mod_mod_cancel)
    then have "a mod 3600 = 60 * (a mod 3600 div 60) + a mod 60"
      using div_mult_mod_eq [of "a mod 3600" 60] by simp
    then show ?thesis using div_mult_mod_eq [of a 3600] by linarith
  qed
  then have "(of_nat a :: rat) = of_nat (3600 * (a div 3600) + 60 * (a mod 3600 div 60) + a mod 60)"
    by simp
  then show ?thesis by (simp add: field_simps)
qed

lemma direct_gmtToken:
  assumes mk: "makeDirectOffsetDTF env z st = (Inr dtf, st')"
    and fmt: "call_format env dtf ts = Inr (pre @ gmtToken off)"
    and pre: "71 \<notin> set pre"
    and bound: "\<bar>off\<bar> < 360000"
  shows "directOffset env z ts st = (Inr (Fin (of_int off / 60)), st')"
proof (cases "off = 0")
  case True
  have fmt': "call_format env dtf ts = Inr (pre @ js ''GMT'' @ [])"
    using fmt True by (simp add: gmtToken_split)
  show ?thesis
    using direct_located [OF mk fmt' search_GMT_skip [OF pre]] True by simp
next
  case False
  define a where "a = nat \<bar>off\<bar>"
  define sg :: "16 word" where "sg = (if off < 0 then 0x2D else 0x2B)"
  define rest where "rest = (if a mod 60 = 0 then [] else js '':'' @ pad2 (a mod 60))"
  have tok: "gmtToken off = js ''GMT'' @ sg # pad2 (a div 3600) @ js '':'' @ pad2 (a mod 3600 div 60) @ rest"
    using False by (simp add: gmtToken_split a_def sg_def rest_def)
  have h: "a div 3600 < 100" using bound by (simp add: a_def)
  have m: "a mod 3600 div 60 < 100"
  proof -
    have "a mod 3600 < 3600" by simp
    then show ?thesis by simp
  qed
  have s: "a mod 60 < 100"
  proof -
    have "a mod 60 < 60" by simp
    then show ?thesis by linarith
  qed
  have secs: "js_Number (take 2 (drop 1 rest)) = Fin (of_nat (a mod 60))"
  proof (cases "a mod 60 = 0")
    case True
    then show ?thesis by (simp add: rest_def js_Number_empty)
  next
    case False
    then have "take 2 (drop 1 rest) = pad2 (a mod 60)"
      by (simp add: rest_def js_def pad2_def)
    then show ?thesis using js_Number_pad2 [OF s] by simp
  qed
  have sign: "(44 - of_nat (unat sg) :: rat) = (if off < 0 then - 1 else 1)"
    by (simp add: sg_def)
  have val: "(of_int off :: rat) = (if off < 0 then - 1 else 1) * of_nat a"
    by (simp add: a_def)
  have fmt': "call_format env dtf ts =
      Inr (pre @ js ''GMT'' @ sg # pad2 (a div 3600) @ js '':'' @ pad2 (a mod 3600 div 60) @ rest)"
    using fmt tok by simp
  have loc: "search_GMT (pre @ js ''GMT'' @ sg # pad2 (a div 3600) @ js '':''
                          @ pad2 (a mod 3600 div 60) @ rest) = int (length pre)"
    by (rule search_GMT_skip [OF pre])
  have "directOffset env z ts st =
      (Inr (Fin ((if off < 0 then - 1 else 1) *
                 (of_nat (a div 3600) * 60 + of_nat (a mod 3600 div 60) + of_nat (a mod 60) / 60))),
       st')"
    using direct_hhmm [OF mk fmt' loc h m] secs sign by simp
  then show ?thesis unfolding hms_sum val by simp
qed

subsection \<open>The probe\<close>

lemma makeDirect_result:
  "fst (makeDirectOffsetDTF env z st) =
     (if truthy (obj_get (directOffsetDTFCache st) z)
      then Inr (obj_get (directOffsetDTFCache st) z)
      else (case newDTF env LongOffset z of Inl e \<Rightarrow> Inl e | Inr f \<Rightarrow> Inr (Own f)))"
  by (simp add: makeDirectOffsetDTF_def Let_def obj_get_upd_same split: sum.splits)

lemma direct_result_local:
  assumes "directOffsetDTFCache st z = directOffsetDTFCache st2 z"
  shows "fst (directOffset env z ts st) = fst (directOffset env z ts st2)"
proof -
  have "obj_get (directOffsetDTFCache st) z = obj_get (directOffsetDTFCache st2) z"
    using assms by (simp add: obj_get_def)
  then have "fst (makeDirectOffsetDTF env z st) = fst (makeDirectOffsetDTF env z st2)"
    by (simp add: makeDirect_result)
  then show ?thesis
    by (cases "makeDirectOffsetDTF env z st"; cases "makeDirectOffsetDTF env z st2")
       (auto simp: directOffset_def Let_def split: sum.splits)
qed

lemma direct_other_key:
  "z' \<noteq> z \<Longrightarrow>
   directOffsetDTFCache (snd (directOffset env z ts st)) z' = directOffsetDTFCache st z'"
  by (simp add: direct_state makeDirectOffsetDTF_def Let_def split: sum.splits)

lemma strict_neq_iff: "strict_neq r (Fin a) \<longleftrightarrow> r \<noteq> Fin a"
  by (cases r) simp_all

lemma probe_passes:
  "(\<not> isl (fst (probe env st))) \<longleftrightarrow>
     fst (directOffset env ''Etc/GMT'' (now env) st) = Inr (Fin 0)
     \<and> fst (directOffset env ''Etc/GMT+1'' (now env) st) = Inr (Fin (- 60))
     \<and> fst (directOffset env ''Etc/GMT-1'' (now env) st) = Inr (Fin 60)"
proof -
  obtain r1 s1 where d1: "directOffset env ''Etc/GMT'' (now env) st = (r1, s1)"
    by (cases "directOffset env ''Etc/GMT'' (now env) st")
  obtain r2 s2 where d2: "directOffset env ''Etc/GMT+1'' (now env) s1 = (r2, s2)"
    by (cases "directOffset env ''Etc/GMT+1'' (now env) s1")
  obtain r3 s3 where d3: "directOffset env ''Etc/GMT-1'' (now env) s2 = (r3, s3)"
    by (cases "directOffset env ''Etc/GMT-1'' (now env) s2")
  have s1: "s1 = snd (directOffset env ''Etc/GMT'' (now env) st)" using d1 by simp
  have s2: "s2 = snd (directOffset env ''Etc/GMT+1'' (now env) s1)" using d2 by simp
  have k1: "directOffsetDTFCache s1 ''Etc/GMT+1'' = directOffsetDTFCache st ''Etc/GMT+1''"
    unfolding s1 by (rule direct_other_key) simp
  have k2: "directOffsetDTFCache s2 ''Etc/GMT-1'' = directOffsetDTFCache st ''Etc/GMT-1''"
  proof -
    have "directOffsetDTFCache s2 ''Etc/GMT-1'' = directOffsetDTFCache s1 ''Etc/GMT-1''"
      unfolding s2 by (rule direct_other_key) simp
    also have "\<dots> = directOffsetDTFCache st ''Etc/GMT-1''"
      unfolding s1 by (rule direct_other_key) simp
    finally show ?thesis .
  qed
  have e1: "fst (directOffset env ''Etc/GMT'' (now env) st) = r1" using d1 by simp
  have e2: "fst (directOffset env ''Etc/GMT+1'' (now env) st) = r2"
    using direct_result_local [OF k1, of env "now env"] d2 by simp
  have e3: "fst (directOffset env ''Etc/GMT-1'' (now env) st) = r3"
    using direct_result_local [OF k2, of env "now env"] d3 by simp
  show ?thesis
    unfolding e1 e2 e3
    by (auto simp: probe_def Let_def d1 d2 d3 strict_neq_iff split: sum.splits)
qed

lemma probe_other_key:
  assumes "z \<noteq> ''Etc/GMT''" "z \<noteq> ''Etc/GMT+1''" "z \<noteq> ''Etc/GMT-1''"
  shows "directOffsetDTFCache (snd (probe env st)) z = directOffsetDTFCache st z"
proof -
  have *: "\<And>z' r s s'. directOffset env z' (now env) s = (r, s') \<Longrightarrow> z \<noteq> z' \<Longrightarrow>
            directOffsetDTFCache s' z = directOffsetDTFCache s z"
    using direct_other_key by (metis snd_conv)
  show ?thesis
    using assms
    by (auto simp: probe_def Let_def split: prod.splits sum.splits dest!: *)
qed

lemma selectStrategy_choice:
  assumes "offsetFunc st = None"
  shows "offsetFunc (selectStrategy env st) =
     Some (if fst (directOffset env ''Etc/GMT'' (now env) st) = Inr (Fin 0)
              \<and> fst (directOffset env ''Etc/GMT+1'' (now env) st) = Inr (Fin (- 60))
              \<and> fst (directOffset env ''Etc/GMT-1'' (now env) st) = Inr (Fin 60)
           then Direct else Calculated)"
proof -
  have "offsetFunc (selectStrategy env st) =
          Some (if \<not> isl (fst (probe env st)) then Direct else Calculated)"
    using assms by (auto simp: selectStrategy_def split: prod.splits sum.splits)
  then show ?thesis unfolding probe_passes .
qed

lemma offset_resolved:
  "offsetFunc st = Some f \<Longrightarrow> offset env this ts st = resolver f env (name this) ts st"
  by (simp add: offset_def selectStrategy_idle)

lemma offset_strategy:
  "offsetFunc (snd (offset env this ts st)) = offsetFunc (selectStrategy env st)"
  using selectStrategy_resolved [of env st]
  by (auto simp: offset_def Let_def resolver_frame split: option.splits)

lemma create_frame:
  "offsetFunc (snd (create env n st)) = offsetFunc st"
  "directOffsetDTFCache (snd (create env n st)) = directOffsetDTFCache st"
  "calculatedOffsetDTFCache (snd (create env n st)) = calculatedOffsetDTFCache st"
  by (simp_all add: create_def Let_def)

lemma step_strategy_kept: "offsetFunc st = Some f \<Longrightarrow> offsetFunc (step env c st) = Some f"
  by (cases c) (simp_all add: create_frame resetCache_def offset_strategy selectStrategy_idle)

lemma run_strategy_kept: "offsetFunc st = Some f \<Longrightarrow> offsetFunc (run env calls st) = Some f"
proof (induction calls arbitrary: st)
  case Nil
  then show ?case by (simp add: run_def)
next
  case (Cons c calls)
  from Cons.IH [OF step_strategy_kept [OF Cons.prems]] show ?case by (simp add: run_def)
qed

lemma step_strategy_unresolved:
  "offsetFunc st = None \<Longrightarrow> \<forall>n t. c \<noteq> Offset n t \<Longrightarrow> offsetFunc (step env c st) = None"
  by (cases c) (simp_all add: create_frame resetCache_def)

lemma run_strategy_unresolved:
  "offsetFunc st = None \<Longrightarrow> \<forall>n t. Offset n t \<notin> set calls \<Longrightarrow>
   offsetFunc (run env calls st) = None"
proof (induction calls arbitrary: st)
  case Nil
  then show ?case by (simp add: run_def)
next
  case (Cons c calls)
  have "offsetFunc (step env c st) = None"
    using Cons.prems by (intro step_strategy_unresolved) auto
  moreover have "\<forall>n t. Offset n t \<notin> set calls" using Cons.prems(2) by auto
  ultimately show ?case using Cons.IH by (simp add: run_def)
qed

subsection \<open>Claims about the strategy\<close>

text \<open>
  C5: the strategy is unresolved initially and stays so until the first \<open>offset\<close> call
  (no other call writes it). An \<open>offset\<close> call that finds it unresolved resolves it:
  to Direct if and only if the direct resolver, at the current time, returns 0 for
  \<open>Etc/GMT\<close>, -60 for \<open>Etc/GMT+1\<close> and 60 for \<open>Etc/GMT-1\<close> without raising, and to
  Calculated otherwise. An \<open>offset\<close> call that finds it resolved is nothing but the
  call of the selected resolver (no probe), and no sequence of calls changes a resolved
  strategy.
\<close>

theorem strategy_selected_once:
  "(offsetFunc st = None \<longrightarrow>
      offsetFunc (snd (offset env this ts st)) =
        Some (if fst (directOffset env ''Etc/GMT'' (now env) st) = Inr (Fin 0)
                 \<and> fst (directOffset env ''Etc/GMT+1'' (now env) st) = Inr (Fin (- 60))
                 \<and> fst (directOffset env ''Etc/GMT-1'' (now env) st) = Inr (Fin 60)
              then Direct else Calculated))
   \<and> (offsetFunc st = Some f \<longrightarrow>
        offset env this ts st = resolver f env (name this) ts st
        \<and> offsetFunc (run env calls st) = Some f)
   \<and> (offsetFunc st = None \<longrightarrow> (\<forall>n t. Offset n t \<notin> set calls) \<longrightarrow>
        offsetFunc (run env calls st) = None)
   \<and> offsetFunc (init :: 'f state) = None"
  by (simp add: offset_strategy selectStrategy_choice offset_resolved run_strategy_kept
        run_strategy_unresolved init_def)

subsection \<open>The sample platform\<close>

lemma sample_offsets:
  "map_of sample_zones ''Etc/GMT'' = Some 0"
  "map_of sample_zones ''Etc/GMT+1'' = Some (- 3600)"
  "map_of sample_zones ''Etc/GMT-1'' = Some 3600"
  "map_of sample_zones ''Asia/Kolkata'' = Some 19800"
  "map_of sample_zones ''Africa/Monrovia'' = Some (- 2670)"
  "map_of sample_zones ''Fantasia/Castle'' = None"
  by (simp_all add: sample_zones_def)

lemma sample_names_not_inherited:
  "''Etc/GMT'' \<notin> set object_prototype_keys"
  "''Etc/GMT+1'' \<notin> set object_prototype_keys"
  "''Etc/GMT-1'' \<notin> set object_prototype_keys"
  "''Asia/Kolkata'' \<notin> set object_prototype_keys"
  "''Africa/Monrovia'' \<notin> set object_prototype_keys"
  "''Fantasia/Castle'' \<notin> set object_prototype_keys"
  by (simp_all add: object_prototype_keys_def)

lemma sample_bound: "map_of sample_zones z = Some off \<Longrightarrow> \<bar>off\<bar> < 360000"
  by (auto simp: sample_zones_def split: if_splits)

lemma no_G_decimal: "71 \<notin> set (decimal n)"
proof (induction n rule: decimal.induct)
  case (1 n)
  then show ?case
    by (subst decimal.simps) (auto simp: not_sign_digit)
qed

lemma sample_clock: "now (platform lo p h) = Fin 1700000000000"
  "newDate (Fin 1700000000000) = Some 1700000000000" "newDate (Fin 0) = Some 0"
  by (simp_all add: platform_def newDate_def)

lemma direct_sample:
  assumes z: "map_of sample_zones z = Some off" and t: "newDate ts = Some t"
    and k: "z \<notin> set object_prototype_keys"
    and c: "directOffsetDTFCache st z = None
            \<or> directOffsetDTFCache st z = Some (SampleDTF LongOffset z)"
  shows "directOffset (platform True p h) z ts st =
           (Inr (Fin (of_int off / 60)),
            st\<lparr>directOffsetDTFCache := (directOffsetDTFCache st)(z \<mapsto> SampleDTF LongOffset z)\<rparr>)"
proof -
  let ?env = "platform True p h"
  let ?st' = "st\<lparr>directOffsetDTFCache := (directOffsetDTFCache st)(z \<mapsto> SampleDTF LongOffset z)\<rparr>"
  have new: "newDTF ?env LongOffset z = Inr (SampleDTF LongOffset z)"
    using z by (simp add: platform_def)
  have mk: "makeDirectOffsetDTF ?env z st = (Inr (Own (SampleDTF LongOffset z)), ?st')"
  proof (cases "directOffsetDTFCache st z")
    case None
    then have "\<not> truthy (obj_get (directOffsetDTFCache st) z)" using k by (simp add: truthy_obj_get)
    from makeDirect_miss_ok [OF this new] show ?thesis .
  next
    case (Some f)
    then have f: "directOffsetDTFCache st z = Some (SampleDTF LongOffset z)" using c by simp
    then have same: "?st' = st" by (simp add: map_upd_triv)
    have "truthy (obj_get (directOffsetDTFCache st) z)" using f by (simp add: truthy_obj_get)
    from makeDirect_hit [OF this, of ?env] show ?thesis using f same by (simp add: obj_get_def)
  qed
  define y where "y = fst (wallClock h off t)"
  have fmt: "call_format ?env (Own (SampleDTF LongOffset z)) ts
             = Inr ((decimal y @ js '', '') @ gmtToken off)"
    using z t
    by (simp add: platform_def sample_format_def sample_text_def case_prod_beta y_def)
  have pre: "71 \<notin> set (decimal y @ js '', '')"
    using no_G_decimal by (simp add: js_def)
  from direct_gmtToken [OF mk fmt pre sample_bound [OF z]] show ?thesis .
qed

lemma direct_unsupported:
  assumes "directOffsetDTFCache st z = None" "z \<notin> set object_prototype_keys"
  shows "directOffset (platform False p h) z ts st = (Inl RangeError, st)"
proof -
  have "\<not> truthy (obj_get (directOffsetDTFCache st) z)" using assms by (simp add: truthy_obj_get)
  moreover have "newDTF (platform False p h) LongOffset z = Inl RangeError"
    by (simp add: platform_def)
  ultimately show ?thesis by (simp add: directOffset_def makeDirect_miss_err)
qed

text \<open>What the probe does on the platform that supports the long offset style.\<close>

lemma probe_sample:
  "probe (platform True p h) init =
     (Inr (), init\<lparr>directOffsetDTFCache :=
        [''Etc/GMT'' \<mapsto> SampleDTF LongOffset ''Etc/GMT'',
         ''Etc/GMT+1'' \<mapsto> SampleDTF LongOffset ''Etc/GMT+1'',
         ''Etc/GMT-1'' \<mapsto> SampleDTF LongOffset ''Etc/GMT-1'']\<rparr>)"
proof -
  let ?env = "platform True p h"
  let ?f = "SampleDTF LongOffset"
  let ?s1 = "init\<lparr>directOffsetDTFCache := [''Etc/GMT'' \<mapsto> ?f ''Etc/GMT'']\<rparr> :: sample_dtf state"
  let ?s2 = "init\<lparr>directOffsetDTFCache := [''Etc/GMT'' \<mapsto> ?f ''Etc/GMT'',
               ''Etc/GMT+1'' \<mapsto> ?f ''Etc/GMT+1'']\<rparr> :: sample_dtf state"
  have d1: "directOffset ?env ''Etc/GMT'' (now ?env) init = (Inr (Fin 0), ?s1)"
    using direct_sample [OF sample_offsets(1) sample_clock(2) sample_names_not_inherited(1),
        of init p h]
    by (simp add: sample_clock init_def)
  have d2: "directOffset ?env ''Etc/GMT+1'' (now ?env) ?s1 = (Inr (Fin (- 60)), ?s2)"
    using direct_sample [OF sample_offsets(2) sample_clock(2) sample_names_not_inherited(2),
        of ?s1 p h]
    by (simp add: sample_clock init_def)
  have d3: "directOffset ?env ''Etc/GMT-1'' (now ?env) ?s2 =
      (Inr (Fin 60), init\<lparr>directOffsetDTFCache := [''Etc/GMT'' \<mapsto> ?f ''Etc/GMT'',
               ''Etc/GMT+1'' \<mapsto> ?f ''Etc/GMT+1'', ''Etc/GMT-1'' \<mapsto> ?f ''Etc/GMT-1'']\<rparr>)"
    using direct_sample [OF sample_offsets(3) sample_clock(2) sample_names_not_inherited(3),
        of ?s2 p h]
    by (simp add: sample_clock init_def)
  show ?thesis by (simp add: probe_def Let_def d1 d2 d3)
qed

lemma select_sample:
  "selectStrategy (platform True p h) init =
     init\<lparr>directOffsetDTFCache :=
        [''Etc/GMT'' \<mapsto> SampleDTF LongOffset ''Etc/GMT'',
         ''Etc/GMT+1'' \<mapsto> SampleDTF LongOffset ''Etc/GMT+1'',
         ''Etc/GMT-1'' \<mapsto> SampleDTF LongOffset ''Etc/GMT-1''],
       offsetFunc := Some Direct\<rparr>"
  by (simp add: selectStrategy_def probe_sample) (simp add: init_def)

lemma select_unsupported:
  "selectStrategy (platform False p h) init = init\<lparr>offsetFunc := Some Calculated\<rparr>"
proof -
  have "directOffset (platform False p h) ''Etc/GMT'' (now (platform False p h)) init
        = (Inl RangeError, init)"
    by (rule direct_unsupported) (simp_all add: init_def sample_names_not_inherited)
  then have "probe (platform False p h) init = (Inl RangeError, init)"
    by (simp add: probe_def Let_def)
  then show ?thesis by (simp add: selectStrategy_def) (simp add: init_def)
qed

theorem strategy_selected_once_witness:
  "offsetFunc (init :: sample_dtf state) = None
   \<and> offsetFunc (snd (offset modern (new_IANAZone modern ''Asia/Kolkata'') (Fin 0) init))
       = Some Direct
   \<and> offsetFunc (snd (offset legacy (new_IANAZone legacy ''Asia/Kolkata'') (Fin 0) init))
       = Some Calculated
   \<and> offsetFunc (run modern [ResetCache, Offset ''Etc/GMT'' (Fin 0)]
        (snd (offset modern (new_IANAZone modern ''Asia/Kolkata'') (Fin 0) init))) = Some Direct
   \<and> offsetFunc (run modern [Create ''Etc/GMT'', ResetCache, IsValidZone ''Etc/GMT''] init) = None"
proof -
  let ?K = "new_IANAZone modern ''Asia/Kolkata''"
  let ?L = "new_IANAZone legacy ''Asia/Kolkata''"
  let ?S = "snd (offset modern ?K (Fin 0) init)"
  have i: "offsetFunc (init :: sample_dtf state) = None" by (simp add: init_def)
  have m: "fst (directOffset modern ''Etc/GMT'' (now modern) init) = Inr (Fin 0)
           \<and> fst (directOffset modern ''Etc/GMT+1'' (now modern) init) = Inr (Fin (- 60))
           \<and> fst (directOffset modern ''Etc/GMT-1'' (now modern) init) = Inr (Fin 60)"
    using direct_sample [OF sample_offsets(1) sample_clock(2) sample_names_not_inherited(1),
            of init True False]
          direct_sample [OF sample_offsets(2) sample_clock(2) sample_names_not_inherited(2),
            of init True False]
          direct_sample [OF sample_offsets(3) sample_clock(2) sample_names_not_inherited(3),
            of init True False]
    by (simp add: sample_clock init_def)
  have l: "fst (directOffset legacy ''Etc/GMT'' (now legacy) init) \<noteq> Inr (Fin 0)"
    using direct_unsupported [of init "''Etc/GMT''" False False "now legacy"]
    by (simp add: init_def sample_names_not_inherited)
  have a: "offsetFunc ?S = Some Direct"
    using strategy_selected_once [of init modern ?K "Fin 0" Direct "[]"] i m by auto
  have b: "offsetFunc (snd (offset legacy ?L (Fin 0) init)) = Some Calculated"
    using strategy_selected_once [of init legacy ?L "Fin 0" Direct "[]"] i l by auto
  have c: "offsetFunc (run modern [ResetCache, Offset ''Etc/GMT'' (Fin 0)] ?S) = Some Direct"
    using strategy_selected_once [of ?S modern ?K "Fin 0" Direct
            "[ResetCache, Offset ''Etc/GMT'' (Fin 0)]"] a by blast
  have d: "offsetFunc (run modern [Create ''Etc/GMT'', ResetCache, IsValidZone ''Etc/GMT''] init)
           = None"
    using strategy_selected_once [of init modern ?K "Fin 0" Direct
            "[Create ''Etc/GMT'', ResetCache, IsValidZone ''Etc/GMT'']"] i by auto
  from i a b c d show ?thesis by blast
qed

subsection \<open>Names the oracle rejects\<close>

lemma direct_keeps_rejected:
  "newDTF env LongOffset z = Inl e \<Longrightarrow> directOffsetDTFCache st z = None \<Longrightarrow>
   directOffsetDTFCache (snd (directOffset env z' ts st)) z = None"
  by (auto simp: direct_state makeDirectOffsetDTF_def Let_def split: sum.splits)

lemma calculated_keeps_rejected:
  "newDTF env WallClock z = Inl e \<Longrightarrow> calculatedOffsetDTFCache st z = None \<Longrightarrow>
   calculatedOffsetDTFCache (snd (calculatedOffset env z' ts st)) z = None"
  by (auto simp: calculated_state makeCalculatedOffsetDTF_def Let_def split: sum.splits)

lemma probe_keeps_rejected:
  assumes "newDTF env LongOffset z = Inl e" "directOffsetDTFCache st z = None"
  shows "directOffsetDTFCache (snd (probe env st)) z = None"
proof -
  have *: "\<And>z' r s s'. directOffset env z' (now env) s = (r, s') \<Longrightarrow>
            directOffsetDTFCache s z = None \<Longrightarrow> directOffsetDTFCache s' z = None"
    using direct_keeps_rejected [OF assms(1)] by (metis snd_conv)
  show ?thesis
    using assms(2)
    by (auto simp: probe_def Let_def split: prod.splits sum.splits dest: *)
qed

lemma selectStrategy_keeps_rejected:
  assumes "newDTF env LongOffset z = Inl e" "directOffsetDTFCache st z = None"
  shows "directOffsetDTFCache (selectStrategy env st) z = None"
    and "calculatedOffsetDTFCache (selectStrategy env st) = calculatedOffsetDTFCache st"
  using probe_keeps_rejected [OF assms] probe_frame(4) [of env st] assms(2)
  by (auto simp: selectStrategy_def split: prod.splits sum.splits)

lemma resolver_keeps_rejected:
  assumes "newDTF env LongOffset z = Inl e1" "newDTF env WallClock z = Inl e2"
    and "directOffsetDTFCache st z = None" "calculatedOffsetDTFCache st z = None"
  shows "directOffsetDTFCache (snd (resolver f env z' ts st)) z = None
         \<and> calculatedOffsetDTFCache (snd (resolver f env z' ts st)) z = None"
  using assms
  by (cases f) (simp_all add: direct_keeps_rejected calculated_keeps_rejected
                  direct_frame calculated_frame)

lemma offset_keeps_rejected:
  assumes "newDTF env LongOffset z = Inl e1" "newDTF env WallClock z = Inl e2"
    and "directOffsetDTFCache st z = None" "calculatedOffsetDTFCache st z = None"
  shows "directOffsetDTFCache (snd (offset env this ts st)) z = None
         \<and> calculatedOffsetDTFCache (snd (offset env this ts st)) z = None"
proof -
  let ?s = "selectStrategy env st"
  have d: "directOffsetDTFCache ?s z = None"
    by (rule selectStrategy_keeps_rejected(1) [OF assms(1,3)])
  have c: "calculatedOffsetDTFCache ?s z = None"
    using selectStrategy_keeps_rejected(2) [OF assms(1,3)] assms(4) by simp
  obtain f where f: "offsetFunc ?s = Some f"
    using selectStrategy_resolved [of env st] by auto
  show ?thesis
    using resolver_keeps_rejected [OF assms(1,2) d c, of f "name this" ts]
    by (simp add: offset_def Let_def f)
qed

lemma step_keeps_rejected:
  assumes "newDTF env LongOffset z = Inl e1" "newDTF env WallClock z = Inl e2"
    and "directOffsetDTFCache st z = None \<and> calculatedOffsetDTFCache st z = None"
  shows "directOffsetDTFCache (step env c st) z = None
         \<and> calculatedOffsetDTFCache (step env c st) z = None"
proof (cases c)
  case (Offset n ts)
  then show ?thesis using offset_keeps_rejected [OF assms(1,2)] assms(3) by simp
qed (use assms(3) in \<open>simp_all add: create_frame resetCache_def\<close>)

lemma run_keeps_rejected:
  assumes "newDTF env LongOffset z = Inl e1" "newDTF env WallClock z = Inl e2"
  shows "directOffsetDTFCache st z = None \<and> calculatedOffsetDTFCache st z = None \<Longrightarrow>
         directOffsetDTFCache (run env calls st) z = None
         \<and> calculatedOffsetDTFCache (run env calls st) z = None"
proof (induction calls arbitrary: st)
  case Nil
  then show ?case by (simp add: run_def)
next
  case (Cons c calls)
  from Cons.IH [OF step_keeps_rejected [OF assms Cons.prems]] show ?case by (simp add: run_def)
qed

lemma direct_rejected:
  assumes "newDTF env LongOffset z = Inl e" "directOffsetDTFCache st z = None"
    "z \<notin> set object_prototype_keys"
  shows "directOffset env z ts st = (Inl e, st)"
proof -
  have "\<not> truthy (obj_get (directOffsetDTFCache st) z)" using assms by (simp add: truthy_obj_get)
  from makeDirect_miss_err [OF this assms(1)] show ?thesis by (simp add: directOffset_def)
qed

lemma calculated_rejected:
  assumes "newDTF env WallClock z = Inl e" "calculatedOffsetDTFCache st z = None"
    "z \<notin> set object_prototype_keys"
  shows "calculatedOffset env z ts st = ((if newDate ts = None then Inr NaN else Inl e), st)"
proof -
  have "\<not> truthy (obj_get (calculatedOffsetDTFCache st) z)"
    using assms by (simp add: truthy_obj_get)
  from makeCalculated_miss_err [OF this assms(1)] show ?thesis
    by (simp add: calculatedOffset_def split: option.splits)
qed

lemma offset_rejected:
  assumes d: "newDTF env LongOffset z = Inl e1" and c: "newDTF env WallClock z = Inl e2"
    and k: "z \<notin> set object_prototype_keys"
    and cd: "directOffsetDTFCache st z = None" and cc: "calculatedOffsetDTFCache st z = None"
    and n: "name this = z"
  shows "fst (offset env this ts st) =
           (case offsetFunc (selectStrategy env st) of
              Some Calculated \<Rightarrow> (if newDate ts = None then Inr NaN else Inl e2)
            | _ \<Rightarrow> Inl e1)"
proof -
  let ?s = "selectStrategy env st"
  have d': "directOffsetDTFCache ?s z = None"
    by (rule selectStrategy_keeps_rejected(1) [OF d cd])
  have c': "calculatedOffsetDTFCache ?s z = None"
    using selectStrategy_keeps_rejected(2) [OF d cd] cc by simp
  obtain f where f: "offsetFunc ?s = Some f"
    using selectStrategy_resolved [of env st] by auto
  show ?thesis
    using direct_rejected [OF d d' k, of ts] calculated_rejected [OF c c' k, of ts]
    by (cases f) (simp_all add: offset_def Let_def f n)
qed

lemma rejected_invalid: "newDTF env Minimal z = Inl e \<Longrightarrow> \<not> isValid (new_IANAZone env z)"
  by (simp add: isValid_def new_IANAZone_def isValidZone_def)

lemma name_new: "name (new_IANAZone env z) = z"
  by (simp add: name_def new_IANAZone_def)

subsection \<open>Claims about invalid names\<close>

text \<open>
  C1, as the code has it: for a name that the oracle rejects whenever a formatter is
  constructed for it (and that is not an inherited property name), the zone is invalid,
  and in every state the module can reach \<open>offset(ts)\<close> raises the oracle's error to the
  caller: under the Direct strategy for every \<open>ts\<close>, under the Calculated strategy for
  every valid instant. Only an invalid instant under the Calculated strategy gives
  \<open>NaN\<close>.
\<close>

theorem offset_of_rejected_name:
  assumes "newDTF env Minimal z = Inl e0" "newDTF env LongOffset z = Inl e1"
    "newDTF env WallClock z = Inl e2" "z \<notin> set object_prototype_keys"
  shows "\<not> isValid (new_IANAZone env z)
    \<and> (offsetFunc (snd (offset env (new_IANAZone env z) ts (run env calls init))) = Some Direct
         \<longrightarrow> fst (offset env (new_IANAZone env z) ts (run env calls init)) = Inl e1)
    \<and> (offsetFunc (snd (offset env (new_IANAZone env z) ts (run env calls init))) = Some Calculated
         \<longrightarrow> fst (offset env (new_IANAZone env z) ts (run env calls init))
              = (if newDate ts = None then Inr NaN else Inl e2))"
proof -
  have "directOffsetDTFCache (init :: 'a state) z = None
        \<and> calculatedOffsetDTFCache (init :: 'a state) z = None"
    by (simp add: init_def)
  from run_keeps_rejected [OF assms(2,3) this, of calls]
  have cd: "directOffsetDTFCache (run env calls init) z = None"
    and cc: "calculatedOffsetDTFCache (run env calls init) z = None" by simp_all
  show ?thesis
    using offset_rejected [OF assms(2,3,4) cd cc name_new [of env z], where ts = ts]
      rejected_invalid [OF assms(1)]
    by (simp add: offset_strategy)
qed

lemma sample_rejects:
  "newDTF (platform lo p h) sh ''Fantasia/Castle'' = Inl RangeError"
  by (simp add: platform_def sample_offsets)

lemma first_offset_sample:
  "offsetFunc (snd (offset (platform True p h) this ts init)) = Some Direct"
  "offsetFunc (snd (offset (platform False p h) this ts init)) = Some Calculated"
  by (simp_all add: offset_strategy select_sample select_unsupported)

theorem offset_of_rejected_name_witness:
  "newDTF modern Minimal ''Fantasia/Castle'' = Inl RangeError
   \<and> newDTF modern LongOffset ''Fantasia/Castle'' = Inl RangeError
   \<and> newDTF modern WallClock ''Fantasia/Castle'' = Inl RangeError
   \<and> ''Fantasia/Castle'' \<notin> set object_prototype_keys
   \<and> \<not> isValid (new_IANAZone modern ''Fantasia/Castle'')
   \<and> fst (offset modern (new_IANAZone modern ''Fantasia/Castle'') (Fin 0)
        (run modern [Offset ''Asia/Kolkata'' (Fin 0), Create ''Fantasia/Castle''] init))
      = Inl RangeError"
proof -
  let ?calls = "[Offset ''Asia/Kolkata'' (Fin 0), Create ''Fantasia/Castle'']"
  let ?Z = "new_IANAZone modern ''Fantasia/Castle''"
  have h: "newDTF modern Minimal ''Fantasia/Castle'' = Inl RangeError"
    "newDTF modern LongOffset ''Fantasia/Castle'' = Inl RangeError"
    "newDTF modern WallClock ''Fantasia/Castle'' = Inl RangeError"
    by (simp_all add: sample_rejects)
  have k: "''Fantasia/Castle'' \<notin> set object_prototype_keys"
    by (rule sample_names_not_inherited)
  have "offsetFunc (snd (offset modern (new_IANAZone modern ''Asia/Kolkata'') (Fin 0) init))
        = Some Direct"
    by (rule first_offset_sample(1))
  from run_strategy_kept [OF this, of modern "[Create ''Fantasia/Castle'']"]
  have "offsetFunc (run modern ?calls init) = Some Direct"
    by (simp add: run_def)
  then have "offsetFunc (snd (offset modern ?Z (Fin 0) (run modern ?calls init))) = Some Direct"
    by (simp add: offset_strategy selectStrategy_idle)
  with offset_of_rejected_name [OF h k, where ts = "Fin 0" and calls = ?calls] h k
  show ?thesis by blast
qed

text \<open>
  C1 as worded (NaN, never an exception) fails: on both sample platforms the name
  \<open>Fantasia/Castle\<close> gives an invalid zone whose \<open>offset(0)\<close> raises the RangeError of
  the formatter's construction, under the Direct strategy (\<open>modern\<close>) and under the
  Calculated strategy (\<open>legacy\<close>).
\<close>

theorem offset_invalid_zone_raises:
  "\<not> isValid (new_IANAZone modern ''Fantasia/Castle'')
   \<and> fst (offset modern (new_IANAZone modern ''Fantasia/Castle'') (Fin 0) init) = Inl RangeError
   \<and> \<not> isValid (new_IANAZone legacy ''Fantasia/Castle'')
   \<and> fst (offset legacy (new_IANAZone legacy ''Fantasia/Castle'') (Fin 0) init) = Inl RangeError"
proof -
  have i: "directOffsetDTFCache (init :: sample_dtf state) ''Fantasia/Castle'' = None"
    "calculatedOffsetDTFCache (init :: sample_dtf state) ''Fantasia/Castle'' = None"
    by (simp_all add: init_def)
  have m: "fst (offset modern (new_IANAZone modern ''Fantasia/Castle'') (Fin 0) init)
           = Inl RangeError"
    using offset_rejected [OF sample_rejects sample_rejects sample_names_not_inherited(6) i
            name_new [of modern], where ts = "Fin 0"]
    by (simp add: select_sample)
  have l: "fst (offset legacy (new_IANAZone legacy ''Fantasia/Castle'') (Fin 0) init)
           = Inl RangeError"
    using offset_rejected [OF sample_rejects sample_rejects sample_names_not_inherited(6) i
            name_new [of legacy], where ts = "Fin 0"]
    by (simp add: select_unsupported sample_clock)
  from m l rejected_invalid [OF sample_rejects] show ?thesis by blast
qed

subsection \<open>Claims about \<open>resetCache\<close> and \<open>isValidZone\<close>\<close>

text \<open>
  C4, as the code has it: after \<open>resetCache()\<close> the identity cache and both formatter
  caches are empty, while the zone objects made so far and the selected strategy are left
  as they are. A following \<open>create(name)\<close>, for a name that is not an inherited
  property of a plain object, constructs a new object under a reference that no earlier
  object has (the next free one); for an inherited name it returns the inherited value
  again. A following \<open>offset\<close> call, if the strategy had been resolved, is the call of the
  selected resolver on the emptied caches: the probe is not run again.
\<close>

theorem resetCache_effect:
  "directOffsetDTFCache (resetCache st) = Map.empty
   \<and> calculatedOffsetDTFCache (resetCache st) = Map.empty
   \<and> ianaZoneCache (resetCache st) = Map.empty
   \<and> heap (resetCache st) = heap st
   \<and> offsetFunc (resetCache st) = offsetFunc st
   \<and> (n \<notin> set object_prototype_keys \<longrightarrow>
        create env n (resetCache st) =
          (Own (length (heap st)),
           (resetCache st)\<lparr>heap := heap st @ [new_IANAZone env n],
                            ianaZoneCache := [n \<mapsto> length (heap st)]\<rparr>))
   \<and> (n \<in> set object_prototype_keys \<longrightarrow>
        create env n (resetCache st) = (Inherited n, resetCache st))
   \<and> (offsetFunc st = Some f \<longrightarrow>
        selectStrategy env (resetCache st) = resetCache st
        \<and> offset env this ts (resetCache st) = resolver f env (name this) ts (resetCache st))"
proof -
  have caches: "directOffsetDTFCache (resetCache st) = Map.empty"
    "calculatedOffsetDTFCache (resetCache st) = Map.empty"
    "ianaZoneCache (resetCache st) = Map.empty"
    "heap (resetCache st) = heap st" "offsetFunc (resetCache st) = offsetFunc st"
    by (simp_all add: resetCache_def)
  have fresh: "create env n (resetCache st) =
          (Own (length (heap st)),
           (resetCache st)\<lparr>heap := heap st @ [new_IANAZone env n],
                            ianaZoneCache := [n \<mapsto> length (heap st)]\<rparr>)"
    if "n \<notin> set object_prototype_keys"
  proof -
    have "\<not> truthy (obj_get (ianaZoneCache (resetCache st)) n)"
      using that by (simp add: truthy_obj_get caches)
    from create_miss [OF this, of env] show ?thesis by (simp add: caches)
  qed
  have same: "create env n (resetCache st) = (Inherited n, resetCache st)"
    if "n \<in> set object_prototype_keys"
  proof -
    have g: "obj_get (ianaZoneCache (resetCache st)) n = Inherited n"
      using that by (simp add: obj_get_def caches)
    then have "truthy (obj_get (ianaZoneCache (resetCache st)) n)" by simp
    from create_hit [OF this, of env] g show ?thesis by simp
  qed
  have noprobe: "selectStrategy env (resetCache st) = resetCache st
        \<and> offset env this ts (resetCache st) = resolver f env (name this) ts (resetCache st)"
    if "offsetFunc st = Some f"
    using that by (simp add: selectStrategy_idle offset_resolved caches)
  from caches fresh same noprobe show ?thesis by blast
qed

theorem resetCache_effect_witness:
  "''Asia/Kolkata'' \<notin> set object_prototype_keys
   \<and> fst (create modern ''Asia/Kolkata'' init) = Own 0
   \<and> fst (create modern ''Asia/Kolkata'' (resetCache (snd (create modern ''Asia/Kolkata'' init))))
       = Own 1
   \<and> ''toString'' \<in> set object_prototype_keys
   \<and> fst (create modern ''toString'' (resetCache (snd (create modern ''Asia/Kolkata'' init))))
       = Inherited ''toString''
   \<and> offsetFunc (snd (offset modern (new_IANAZone modern ''Asia/Kolkata'') (Fin 0) init))
       = Some Direct
   \<and> offset modern (new_IANAZone modern ''Asia/Kolkata'') (Fin 0)
        (resetCache (snd (offset modern (new_IANAZone modern ''Asia/Kolkata'') (Fin 0) init)))
      = directOffset modern ''Asia/Kolkata'' (Fin 0)
        (resetCache (snd (offset modern (new_IANAZone modern ''Asia/Kolkata'') (Fin 0) init)))"
proof -
  let ?K = "new_IANAZone modern ''Asia/Kolkata''"
  let ?S = "snd (create modern ''Asia/Kolkata'' init)"
  let ?T = "snd (offset modern ?K (Fin 0) init)"
  have k: "''Asia/Kolkata'' \<notin> set object_prototype_keys" by (rule sample_names_not_inherited)
  have t: "''toString'' \<in> set object_prototype_keys" by (simp add: object_prototype_keys_def)
  have "\<not> truthy (obj_get (ianaZoneCache (init :: sample_dtf state)) ''Asia/Kolkata'')"
    using k by (simp add: truthy_obj_get init_def)
  from create_miss [OF this, of modern]
  have c0: "fst (create modern ''Asia/Kolkata'' init) = Own 0" and h: "length (heap ?S) = 1"
    by (simp_all add: init_def)
  have d: "offsetFunc ?T = Some Direct" by (rule first_offset_sample(1))
  have c1: "fst (create modern ''Asia/Kolkata'' (resetCache ?S)) = Own 1"
    using resetCache_effect [of ?S "''Asia/Kolkata''" modern Direct ?K "Fin 0"] k h by simp
  have c2: "fst (create modern ''toString'' (resetCache ?S)) = Inherited ''toString''"
    using resetCache_effect [of ?S "''toString''" modern Direct ?K "Fin 0"] t by simp
  have o: "offset modern ?K (Fin 0) (resetCache ?T)
           = directOffset modern ''Asia/Kolkata'' (Fin 0) (resetCache ?T)"
    using resetCache_effect [of ?T "''Asia/Kolkata''" modern Direct ?K "Fin 0"] d
    by (simp add: name_new)
  from k c0 c1 t c2 d o show ?thesis by blast
qed

text \<open>
  C4 as worded fails on its last part: the first \<open>offset\<close> call runs the probe (it
  leaves a formatter for \<open>Etc/GMT\<close> in the cache), \<open>resetCache()\<close> leaves the strategy
  resolved, and the next \<open>offset\<close> call does not probe (no formatter for \<open>Etc/GMT\<close> is
  made).
\<close>

theorem resetCache_keeps_strategy:
  "directOffsetDTFCache (snd (offset modern (new_IANAZone modern ''Asia/Kolkata'') (Fin 0) init))
      ''Etc/GMT'' = Some (SampleDTF LongOffset ''Etc/GMT'')
   \<and> offsetFunc (resetCache
        (snd (offset modern (new_IANAZone modern ''Asia/Kolkata'') (Fin 0) init))) = Some Direct
   \<and> directOffsetDTFCache
        (snd (offset modern (new_IANAZone modern ''Asia/Kolkata'') (Fin 0)
          (resetCache (snd (offset modern (new_IANAZone modern ''Asia/Kolkata'') (Fin 0) init)))))
      ''Etc/GMT'' = None"
proof -
  let ?K = "new_IANAZone modern ''Asia/Kolkata''"
  let ?T = "snd (offset modern ?K (Fin 0) init)"
  have T: "?T = snd (directOffset modern ''Asia/Kolkata'' (Fin 0) (selectStrategy modern init))"
    by (simp add: offset_def Let_def select_sample name_new)
  have a: "directOffsetDTFCache ?T ''Etc/GMT'' = Some (SampleDTF LongOffset ''Etc/GMT'')"
    unfolding T by (subst direct_other_key) (simp_all add: select_sample)
  have d: "offsetFunc ?T = Some Direct" by (rule first_offset_sample(1))
  then have b: "offsetFunc (resetCache ?T) = Some Direct" by (simp add: resetCache_def)
  have "offset modern ?K (Fin 0) (resetCache ?T)
        = directOffset modern ''Asia/Kolkata'' (Fin 0) (resetCache ?T)"
    using offset_resolved [OF b, of modern ?K "Fin 0"] by (simp add: name_new)
  then have c: "directOffsetDTFCache (snd (offset modern ?K (Fin 0) (resetCache ?T))) ''Etc/GMT''
                = None"
    by (simp add: direct_other_key) (simp add: resetCache_def)
  from a b c show ?thesis by blast
qed

text \<open>
  What \<open>isValidZone\<close> computes: false for the empty string, and for any other string
  true exactly when the minimal formatter can be constructed and formatting the current
  time with it succeeds.
\<close>

lemma isValidZone_iff:
  "isValidZone env [] = False
   \<and> (isValidZone env z \<longleftrightarrow>
        z \<noteq> [] \<and> (\<exists>f text. newDTF env Minimal z = Inr f \<and> format env f (now env) = Inr text))"
  by (auto simp: isValidZone_def split: sum.splits)

lemma platform_formats:
  assumes "newDTF (platform lo p h) Minimal z = Inr f"
  shows "\<exists>text. format (platform lo p h) f (now (platform lo p h)) = Inr text"
proof -
  from assms have f: "f = SampleDTF Minimal z" and known: "map_of sample_zones z \<noteq> None"
    by (auto simp: platform_def split: if_splits)
  then obtain off where "map_of sample_zones z = Some off" by auto
  then show ?thesis
    by (simp add: platform_def sample_format_def f sample_clock)
qed

text \<open>
  C7: \<open>isValidZone\<close> is false for the empty string whatever the oracle is (the oracle is
  not asked). For any other string, on an engine whose minimal formatter, once
  constructed, formats the current time, it is true exactly when the construction of the
  minimal formatter bound to the string succeeds; an error raised by the construction is
  mapped to false. The result is a boolean in every case: nothing is propagated.
\<close>

theorem isValidZone_accepts:
  assumes "\<And>f. newDTF env Minimal z = Inr f \<Longrightarrow> \<exists>text. format env f (now env) = Inr text"
  shows "isValidZone env' [] = False
         \<and> (z \<noteq> [] \<longrightarrow> (isValidZone env z \<longleftrightarrow> (\<exists>f. newDTF env Minimal z = Inr f)))
         \<and> (newDTF env Minimal z = Inl e \<longrightarrow> \<not> isValidZone env z)"
proof -
  have empty: "isValidZone env' [] = False" by (simp add: isValidZone_def)
  have raised: "\<not> isValidZone env z" if "newDTF env Minimal z = Inl e"
    using that by (simp add: isValidZone_def)
  have both: "isValidZone env z \<longleftrightarrow> (\<exists>f. newDTF env Minimal z = Inr f)" if "z \<noteq> []"
  proof
    assume "isValidZone env z"
    then show "\<exists>f. newDTF env Minimal z = Inr f"
      by (auto simp: isValidZone_def split: sum.splits if_splits)
  next
    assume "\<exists>f. newDTF env Minimal z = Inr f"
    then obtain f where f: "newDTF env Minimal z = Inr f" by blast
    from assms [OF f] obtain out where "format env f (now env) = Inr out" by blast
    then show "isValidZone env z" using f that by (simp add: isValidZone_def)
  qed
  from empty raised both show ?thesis by blast
qed

theorem isValidZone_accepts_witness:
  "isValidZone modern ''Etc/GMT''
   \<and> newDTF modern Minimal ''Etc/GMT'' = Inr (SampleDTF Minimal ''Etc/GMT'')
   \<and> \<not> isValidZone modern ''Fantasia/Castle''
   \<and> newDTF modern Minimal ''Fantasia/Castle'' = Inl RangeError
   \<and> \<not> isValidZone modern []"
proof -
  have h: "\<And>z f. newDTF modern Minimal z = Inr f
             \<Longrightarrow> \<exists>text. format modern f (now modern) = Inr text"
    by (rule platform_formats)
  have g: "newDTF modern Minimal ''Etc/GMT'' = Inr (SampleDTF Minimal ''Etc/GMT'')"
    by (simp add: platform_def sample_offsets)
  have c: "newDTF modern Minimal ''Fantasia/Castle'' = Inl RangeError"
    by (rule sample_rejects)
  have n: "''Etc/GMT'' \<noteq> []" by simp
  from isValidZone_accepts [OF h, where z = "''Etc/GMT''" and env' = modern] g n
  have a: "isValidZone modern ''Etc/GMT''" and e: "\<not> isValidZone modern []" by auto
  from isValidZone_accepts [OF h, where z = "''Fantasia/Castle''" and e = RangeError] c
  have b: "\<not> isValidZone modern ''Fantasia/Castle''" by auto
  from a g b c e show ?thesis by blast
qed

subsection \<open>The calculated resolver\<close>

lemma floor_second:
  "date - (if js_rem date 1000 \<ge> 0 then js_rem date 1000 else 1000 + js_rem date 1000)
   = 1000 * (date div 1000)"
proof (cases "date \<ge> 0")
  case True
  then have "js_rem date 1000 = date mod 1000" by (simp add: js_rem_def sgn_if)
  moreover have "0 \<le> date mod 1000" by simp
  moreover have "date - date mod 1000 = 1000 * (date div 1000)"
    using div_mult_mod_eq [of date 1000] by linarith
  ultimately show ?thesis by simp
next
  case False
  then have r: "js_rem date 1000 = - ((- date) mod 1000)" by (simp add: js_rem_def sgn_if)
  show ?thesis
  proof (cases "(- date) mod 1000 = 0")
    case True
    then have "1000 dvd date" by (simp add: mod_eq_0_iff_dvd)
    then have "1000 * (date div 1000) = date" by simp
    then show ?thesis using r True by simp
  next
    case nz: False
    have pos: "0 < (- date) mod 1000" using nz pos_mod_sign [of 1000 "- date"] by linarith
    have "(- (- date)) mod 1000
          = (if (- date) mod 1000 = 0 then 0 else 1000 - (- date) mod 1000)"
      by (rule zmod_zminus1_eq_if)
    then have "date mod 1000 = 1000 - (- date) mod 1000"
      using nz by simp
    then have "date - 1000 + (- date) mod 1000 = 1000 * (date div 1000)"
      using div_mult_mod_eq [of date 1000] by linarith
    then show ?thesis using r pos by simp
  qed
qed

lemma calculated_value:
  assumes "newDate ts = Some date"
    and "makeCalculatedOffsetDTF env z st = (Inr dtf, st')"
    and "(case get_formatToParts env dtf of
            Some ftp \<Rightarrow> partsOffset ftp (Fin (of_int date))
          | None \<Rightarrow> hackyOffset env dtf (Fin (of_int date))) = Inr parsed"
  shows "calculatedOffset env z ts st =
           (Inr (jsdiv (jssub (objToLocalTS env (localFields parsed))
                              (Fin (of_int (1000 * (date div 1000)))))
                       (Fin 60000)), st')"
proof -
  have up: "(of_int date - of_int (js_rem date 1000) :: rat) = 1000 * of_int (date div 1000)"
    if "0 \<le> js_rem date 1000"
  proof -
    have "date - js_rem date 1000 = 1000 * (date div 1000)"
      using floor_second [of date] that by simp
    then have "(of_int (date - js_rem date 1000) :: rat) = of_int (1000 * (date div 1000))"
      by (simp only:)
    then show ?thesis by simp
  qed
  have down: "(of_int date - (1000 + of_int (js_rem date 1000)) :: rat)
              = 1000 * of_int (date div 1000)"
    if "\<not> 0 \<le> js_rem date 1000"
  proof -
    have "date - (1000 + js_rem date 1000) = 1000 * (date div 1000)"
      using floor_second [of date] that by simp
    then have "(of_int (date - (1000 + js_rem date 1000)) :: rat)
               = of_int (1000 * (date div 1000))"
      by (simp only:)
    then show ?thesis by simp
  qed
  show ?thesis using up down by (simp add: calculatedOffset_def Let_def assms)
qed

lemma calculated_cases:
  assumes "fst (calculatedOffset env z ts st) = Inr r"
  shows "r = NaN \<or> (\<exists>date parsed. newDate ts = Some date \<and>
           r = jsdiv (jssub (objToLocalTS env (localFields parsed))
                            (Fin (of_int (1000 * (date div 1000))))) (Fin 60000))"
proof (cases "newDate ts")
  case None
  then show ?thesis using assms by (simp add: calculatedOffset_def)
next
  case (Some date)
  obtain m st' where mk: "makeCalculatedOffsetDTF env z st = (m, st')"
    by (cases "makeCalculatedOffsetDTF env z st")
  show ?thesis
  proof (cases m)
    case (Inl e)
    then show ?thesis using assms Some mk by (simp add: calculatedOffset_def)
  next
    case (Inr dtf)
    let ?p = "(case get_formatToParts env dtf of
                 Some ftp \<Rightarrow> partsOffset ftp (Fin (of_int date))
               | None \<Rightarrow> hackyOffset env dtf (Fin (of_int date)))"
    show ?thesis
    proof (cases ?p)
      case (Inl e)
      then show ?thesis using assms Some mk Inr by (simp add: calculatedOffset_def)
    next
      case parsed: (Inr parsed)
      from calculated_value [OF Some mk [unfolded Inr] parsed] assms Some
      show ?thesis by auto
    qed
  qed
qed

lemma localFields_millisecond: "millisecond (localFields parsed) = VNum (Fin 0)"
  by (simp add: localFields_def Let_def split: list.splits)

lemma utc_whole_seconds:
  assumes "millisecond obj = VNum (Fin 0)"
  shows "utcOfFields obj = NaN \<or> (\<exists>j::int. utcOfFields obj = Fin (of_int (1000 * j)))"
proof (cases "utcOfFields obj")
  case NaN
  then show ?thesis by simp
next
  case (Fin q)
  have ms: "toInteger (millisecond obj) = Some 0" using assms by (simp add: toInteger_def)
  from Fin obtain y mo d h mi s :: int where
    "q = of_int ((((days_from_civil y mo d * 24 + h) * 60 + mi) * 60 + s) * 1000 + 0)"
    by (auto simp: utcOfFields_def ms split: option.splits simp del: of_int_add of_int_mult)
  then have "utcOfFields obj
             = Fin (of_int (1000 * ((((days_from_civil y mo d * 24 + h) * 60 + mi) * 60 + s))))"
    using Fin by (simp add: mult.commute)
  then show ?thesis by blast
qed

lemma calculated_whole_seconds:
  assumes "objToLocalTS env = utcOfFields" "fst (calculatedOffset env z ts st) = Inr r"
  shows "r = NaN \<or> (\<exists>k::int. r = Fin (of_int k / 60))"
proof -
  from calculated_cases [OF assms(2)]
  consider "r = NaN"
    | date parsed where "r = jsdiv (jssub (utcOfFields (localFields parsed))
                            (Fin (of_int (1000 * (date div 1000))))) (Fin 60000)"
    using assms(1) by auto
  then show ?thesis
  proof cases
    case 1
    then show ?thesis by simp
  next
    case 2
    from utc_whole_seconds [OF localFields_millisecond, of parsed]
    show ?thesis
    proof
      assume "utcOfFields (localFields parsed) = NaN"
      then show ?thesis using 2 by simp
    next
      assume "\<exists>j::int. utcOfFields (localFields parsed) = Fin (of_int (1000 * j))"
      then obtain j :: int where j: "utcOfFields (localFields parsed) = Fin (of_int (1000 * j))"
        by blast
      have "r = Fin (of_int (j - date div 1000) / 60)"
        using 2 j by (simp add: field_simps)
      then show ?thesis by blast
    qed
  qed
qed

subsection \<open>Digit strings\<close>

lemma digit_not_space: "isDigit c \<Longrightarrow> \<not> isStrWhiteSpace c"
  by (auto simp: isDigit_def isStrWhiteSpace_def word_le_nat_alt word_unat_eq_iff)

lemma digit_not_sign: "isDigit c \<Longrightarrow> c \<noteq> 0x2B \<and> c \<noteq> 0x2D \<and> c \<noteq> 0x200E"
  by (auto simp: isDigit_def word_le_nat_alt)

lemma digits_untouched:
  assumes "ds \<noteq> []" "\<forall>c\<in>set ds. isDigit c"
  shows "dropWhile isStrWhiteSpace ds = ds" "takeWhile isDigit ds = ds"
    "dropWhile isDigit ds = []" "take 1 ds \<noteq> [0x2B]" "take 1 ds \<noteq> [0x2D]" "trim ds = ds"
proof -
  obtain c cs where ds: "ds = c # cs" using assms(1) by (cases ds) auto
  then have c: "isDigit c" using assms(2) by simp
  show d: "dropWhile isStrWhiteSpace ds = ds" using ds digit_not_space [OF c] by simp
  show "takeWhile isDigit ds = ds" using assms(2) by simp
  show "dropWhile isDigit ds = []" using assms(2) by simp
  show "take 1 ds \<noteq> [0x2B]" "take 1 ds \<noteq> [0x2D]" using ds digit_not_sign [OF c] by simp_all
  have "isDigit (last ds)" using assms by simp
  then have "\<not> isStrWhiteSpace (hd (rev ds))"
    using assms(1) by (simp add: hd_rev digit_not_space)
  then have "dropWhile isStrWhiteSpace (rev ds) = rev ds"
    using assms(1) by (cases "rev ds") auto
  then show "trim ds = ds" by (simp add: trim_def d)
qed

lemma parseInt10_digits:
  assumes "ds \<noteq> []" "\<forall>c\<in>set ds. isDigit c"
  shows "parseInt10 ds = Fin (of_nat (digitsVal ds))"
  using assms(1) digits_untouched [OF assms]
  by (simp add: parseInt10_def Let_def del: takeWhile_eq_all_conv)

lemma js_Number_digits:
  assumes "ds \<noteq> []" "\<forall>c\<in>set ds. isDigit c"
  shows "js_Number ds = Fin (of_nat (digitsVal ds))"
proof -
  obtain c cs where ds: "ds = c # cs" using assms(1) by (cases ds) auto
  then have c: "isDigit c" using assms(2) by simp
  have t: "trim ds = c # cs" using digits_untouched(6) [OF assms] ds by simp
  have tw: "takeWhile isDigit (c # cs) = c # cs" "dropWhile isDigit (c # cs) = []"
    using digits_untouched(2,3) [OF assms] ds by simp_all
  show ?thesis
    unfolding js_Number_def t
    using digit_not_sign [OF c] tw ds by (simp add: Let_def)
qed

lemma pad2_digits: "pad2 n \<noteq> []" "\<forall>c\<in>set (pad2 n). isDigit c"
  by (simp_all add: pad2_def isDigit_digit)

lemma pad2_value: "n < 100 \<Longrightarrow> digitsVal (pad2 n) = n"
proof -
  assume "n < 100"
  then have "10 * (n div 10 mod 10) + n mod 10 = n" by simp
  then show ?thesis by (simp add: digitsVal_def pad2_def digit_unat)
qed

lemma decimal_digits: "decimal n \<noteq> []" "\<forall>c\<in>set (decimal n). isDigit c"
proof -
  show "decimal n \<noteq> []" by (subst decimal.simps) simp
  show "\<forall>c\<in>set (decimal n). isDigit c"
  proof (induction n rule: decimal.induct)
    case (1 n)
    then show ?case by (subst decimal.simps) (auto simp: isDigit_digit)
  qed
qed

lemma digitsVal_snoc: "digitsVal (ds @ [c]) = 10 * digitsVal ds + (unat c - 48)"
  by (simp add: digitsVal_def)

lemma decimal_value: "digitsVal (decimal n) = n"
proof (induction n rule: decimal.induct)
  case (1 n)
  show ?case
  proof (cases "n < 10")
    case True
    then show ?thesis by (subst decimal.simps) (simp add: digitsVal_def digit_unat)
  next
    case False
    then have "digitsVal (decimal (n div 10)) = n div 10" using "1.IH" by simp
    then show ?thesis using False
      by (subst decimal.simps) (simp add: digitsVal_snoc digit_unat)
  qed
qed

lemma parseInt10_sample:
  "n < 100 \<Longrightarrow> parseInt10 (pad2 n) = Fin (of_nat n)"
  "parseInt10 (decimal n) = Fin (of_nat n)"
  by (simp_all add: parseInt10_digits pad2_digits pad2_value decimal_digits decimal_value)

subsection \<open>The field list of an \<open>en-US\<close> engine\<close>

lemma list_update_Cons_numeral: "(x # xs)[numeral v := y] = x # xs[numeral v - 1 := y]"
  by (simp add: numeral_eq_Suc)

lemma replicate_7: "replicate 7 x = [x, x, x, x, x, x, x]"
  by (simp add: numeral_eq_Suc)

lemma typeToPos_keys:
  "typeToPos (js ''year'') = Some 0" "typeToPos (js ''month'') = Some 1"
  "typeToPos (js ''day'') = Some 2" "typeToPos (js ''era'') = Some 3"
  "typeToPos (js ''hour'') = Some 4" "typeToPos (js ''minute'') = Some 5"
  "typeToPos (js ''second'') = Some 6" "typeToPos (js ''literal'') = None"
  by (simp_all add: typeToPos_def js_def)

lemma not_era:
  "js ''year'' \<noteq> js ''era''" "js ''month'' \<noteq> js ''era''" "js ''day'' \<noteq> js ''era''"
  "js ''hour'' \<noteq> js ''era''" "js ''minute'' \<noteq> js ''era''" "js ''second'' \<noteq> js ''era''"
  "js ''literal'' \<noteq> js ''era''"
  by (simp_all add: js_def)

lemma fill_en_US:
  "fill [(js ''month'', m), (js ''literal'', l1), (js ''day'', d), (js ''literal'', l2),
         (js ''year'', y), (js ''literal'', l3), (js ''era'', e), (js ''literal'', l4),
         (js ''hour'', h), (js ''literal'', l5), (js ''minute'', mi), (js ''literal'', l6),
         (js ''second'', s)] (replicate 7 VUndefined)
   = [VNum (parseInt10 y), VNum (parseInt10 m), VNum (parseInt10 d), VStr e,
      VNum (parseInt10 h), VNum (parseInt10 mi), VNum (parseInt10 s)]"
  by (simp add: replicate_7 typeToPos_keys not_era Let_def list_update_Cons_numeral)

lemma sample_partsOffset:
  assumes w: "wallClock h24 off t = (y, m, d, e, h, mi, s)"
    and b: "m < 100" "d < 100" "h < 100" "mi < 100" "s < 100"
  shows "fill (sample_parts h24 off t) (replicate 7 VUndefined)
         = [VNum (Fin (of_nat y)), VNum (Fin (of_nat m)), VNum (Fin (of_nat d)), VStr (js e),
            VNum (Fin (of_nat h)), VNum (Fin (of_nat mi)), VNum (Fin (of_nat s))]"
  unfolding sample_parts_def w
  by (simp only: prod.case fill_en_US parseInt10_sample b)

lemma newDate_idem: "newDate ts = Some t \<Longrightarrow> newDate (Fin (of_int t)) = Some t"
proof (cases ts)
  case NaN
  assume "newDate ts = Some t"
  then show ?thesis using NaN by (simp add: newDate_def)
next
  case (Fin r)
  assume "newDate ts = Some t"
  then have r: "\<bar>r\<bar> \<le> 8640000000000000" and t: "t = (if r \<ge> 0 then \<lfloor>r\<rfloor> else \<lceil>r\<rceil>)"
    using Fin by (auto simp: newDate_def split: if_splits)
  have "\<bar>of_int t :: rat\<bar> \<le> \<bar>r\<bar>"
  proof (cases "r \<ge> 0")
    case True
    then have "0 \<le> \<lfloor>r\<rfloor>" by simp
    then show ?thesis using True t of_int_floor_le [of r] by simp
  next
    case False
    then have "\<lceil>r\<rceil> \<le> 0" by (simp add: ceiling_le_iff)
    then show ?thesis using False t le_of_int_ceiling [of r] by simp
  qed
  then have "\<not> \<bar>of_int t :: rat\<bar> > 8640000000000000" using r by linarith
  then show ?thesis by (simp add: newDate_def)
qed

lemma calculated_sample_parts:
  assumes z: "map_of sample_zones z = Some off" and t: "newDate ts = Some t"
    and k: "z \<notin> set object_prototype_keys"
    and c: "calculatedOffsetDTFCache st z = None"
    and w: "wallClock h24 off t = (y, m, d, e, h, mi, s)"
    and b: "m < 100" "d < 100" "h < 100" "mi < 100" "s < 100"
  shows "fst (calculatedOffset (platform lo True h24) z ts st) =
     Inr (jsdiv (jssub (utcOfFields (localFields
            [VNum (Fin (of_nat y)), VNum (Fin (of_nat m)), VNum (Fin (of_nat d)), VStr (js e),
             VNum (Fin (of_nat h)), VNum (Fin (of_nat mi)), VNum (Fin (of_nat s))]))
          (Fin (of_int (1000 * (t div 1000))))) (Fin 60000))"
proof -
  let ?env = "platform lo True h24"
  let ?f = "SampleDTF WallClock z"
  have new: "newDTF ?env WallClock z = Inr ?f" using z by (simp add: platform_def)
  have "\<not> truthy (obj_get (calculatedOffsetDTFCache st) z)"
    using c k by (simp add: truthy_obj_get)
  from makeCalculated_miss_ok [OF this new]
  have mk: "makeCalculatedOffsetDTF ?env z st =
              (Inr (Own ?f), st\<lparr>calculatedOffsetDTFCache := (calculatedOffsetDTFCache st)(z \<mapsto> ?f)\<rparr>)" .
  have nd: "newDate (Fin (of_int t)) = Some t"
    by (rule newDate_idem [OF t])
  have parsed: "(case get_formatToParts ?env (Own ?f) of
            Some ftp \<Rightarrow> partsOffset ftp (Fin (of_int t))
          | None \<Rightarrow> hackyOffset ?env (Own ?f) (Fin (of_int t)))
        = Inr [VNum (Fin (of_nat y)), VNum (Fin (of_nat m)), VNum (Fin (of_nat d)), VStr (js e),
               VNum (Fin (of_nat h)), VNum (Fin (of_nat mi)), VNum (Fin (of_nat s))]"
    using sample_partsOffset [OF w b] z nd
    by (simp add: platform_def partsOffset_def sample_formatToParts_def)
  have obj: "objToLocalTS ?env = utcOfFields" by (simp add: platform_def)
  from calculated_value [OF t mk parsed] show ?thesis by (simp add: obj)
qed

subsection \<open>Claims about the direct resolver\<close>

text \<open>
  C3, as the code has it: when the text of the formatter has, at the first \<open>GMT\<close>, a
  sign character, two digits \<open>hh\<close>, a colon and two digits \<open>mm\<close>, followed either by
  nothing or by a colon and two digits \<open>ss\<close>, the direct resolver returns
  \<open>sign * (hh * 60 + mm + ss / 60)\<close> where \<open>sign\<close> is +1 for the character \<open>+\<close> and
  -1 for the character \<open>-\<close> (the factor is \<open>44 - charCode\<close>). The offsets of
  \<open>Etc/GMT+1\<close> and \<open>Etc/GMT-1\<close> are -60 and 60 because the oracle prints them as
  \<open>GMT-01:00\<close> and \<open>GMT+01:00\<close>.
\<close>

theorem direct_sign_of_token:
  assumes mk: "makeDirectOffsetDTF env z st = (Inr dtf, st')"
    and fmt: "call_format env dtf ts
              = Inr (pre @ js ''GMT'' @ sg # pad2 h @ js '':'' @ pad2 m @ rest)"
    and loc: "search_GMT (pre @ js ''GMT'' @ sg # pad2 h @ js '':'' @ pad2 m @ rest)
              = int (length pre)"
    and sg: "sg = 0x2B \<or> sg = 0x2D" and h: "h < 100" and m: "m < 100"
    and rest: "rest = [] \<and> s = 0 \<or> (\<exists>more. rest = js '':'' @ pad2 s @ more) \<and> s < 100"
  shows "fst (directOffset env z ts st)
         = Inr (Fin ((if sg = 0x2B then 1 else - 1) * (of_nat h * 60 + of_nat m + of_nat s / 60)))"
proof -
  have secs: "js_Number (take 2 (drop 1 rest)) = Fin (of_nat s)"
    using rest
  proof
    assume "rest = [] \<and> s = 0"
    then show ?thesis by (simp add: js_Number_empty)
  next
    assume r: "(\<exists>more. rest = js '':'' @ pad2 s @ more) \<and> s < 100"
    then obtain more where "rest = js '':'' @ pad2 s @ more" by blast
    then have "take 2 (drop 1 rest) = pad2 s" by (simp add: js_def pad2_def)
    then show ?thesis using r by (simp add: js_Number_pad2)
  qed
  have sign: "(44 - of_nat (unat sg) :: rat) = (if sg = 0x2B then 1 else - 1)"
    using sg by auto
  show ?thesis
    using direct_hhmm [OF mk fmt loc h m] secs sign by simp
qed

lemma sample_texts:
  "call_format (platform lo p h24) (Own (SampleDTF LongOffset ''Etc/GMT+1'')) (Fin 0)
   = Inr (js ''1969, '' @ js ''GMT'' @ 0x2D # pad2 1 @ js '':'' @ pad2 0 @ [])"
  "call_format (platform lo p h24) (Own (SampleDTF LongOffset ''Etc/GMT-1'')) (Fin 0)
   = Inr (js ''1970, '' @ js ''GMT'' @ 0x2B # pad2 1 @ js '':'' @ pad2 0 @ [])"
  "call_format (platform lo p h24) (Own (SampleDTF LongOffset ''Asia/Kolkata'')) (Fin 0)
   = Inr (js ''1970, GMT+05:30'')"
proof -
  have y: "fst (wallClock h24 (- 3600) 0) = 1969" "fst (wallClock h24 3600 0) = 1970"
    "fst (wallClock h24 19800 0) = 1970"
    unfolding wallClock_def civil_from_days_def Let_def by simp_all
  have d: "decimal 1969 = js ''1969''" "decimal 1970 = js ''1970''"
    by (simp_all add: decimal.simps digit_def js_def)
  show "call_format (platform lo p h24) (Own (SampleDTF LongOffset ''Etc/GMT+1'')) (Fin 0)
   = Inr (js ''1969, '' @ js ''GMT'' @ 0x2D # pad2 1 @ js '':'' @ pad2 0 @ [])"
    by (simp add: platform_def sample_format_def sample_text_def sample_offsets sample_clock
          case_prod_beta y d gmtToken_split) (simp add: js_def)
  show "call_format (platform lo p h24) (Own (SampleDTF LongOffset ''Etc/GMT-1'')) (Fin 0)
   = Inr (js ''1970, '' @ js ''GMT'' @ 0x2B # pad2 1 @ js '':'' @ pad2 0 @ [])"
    by (simp add: platform_def sample_format_def sample_text_def sample_offsets sample_clock
          case_prod_beta y d gmtToken_split) (simp add: js_def)
  show "call_format (platform lo p h24) (Own (SampleDTF LongOffset ''Asia/Kolkata'')) (Fin 0)
   = Inr (js ''1970, GMT+05:30'')"
    by (simp add: platform_def sample_format_def sample_text_def sample_offsets sample_clock
          case_prod_beta y d gmtToken_split) (simp add: js_def pad2_def digit_def)
qed

lemma sample_makeDirect:
  assumes "map_of sample_zones z = Some off" "z \<notin> set object_prototype_keys"
  shows "makeDirectOffsetDTF (platform True p h) z init =
     (Inr (Own (SampleDTF LongOffset z)),
      init\<lparr>directOffsetDTFCache := [z \<mapsto> SampleDTF LongOffset z]\<rparr>)"
proof -
  have "\<not> truthy (obj_get (directOffsetDTFCache (init :: sample_dtf state)) z)"
    using assms(2) by (simp add: truthy_obj_get init_def)
  moreover have "newDTF (platform True p h) LongOffset z = Inr (SampleDTF LongOffset z)"
    using assms(1) by (simp add: platform_def)
  ultimately show ?thesis using makeDirect_miss_ok by (fastforce simp: init_def)
qed

lemma monrovia_text:
  "call_format (platform lo p h24) (Own (SampleDTF LongOffset ''Africa/Monrovia'')) (Fin 0)
   = Inr (js ''1969, '' @ js ''GMT'' @ 0x2D # pad2 0 @ js '':'' @ pad2 44 @ js '':'' @ pad2 30 @ [])"
proof -
  have y: "fst (wallClock h24 (- 2670) 0) = 1969"
    unfolding wallClock_def civil_from_days_def Let_def by simp
  have d: "decimal 1969 = js ''1969''"
    by (simp add: decimal.simps digit_def js_def)
  show ?thesis
    by (simp add: platform_def sample_format_def sample_text_def sample_offsets sample_clock
          case_prod_beta y d gmtToken_split) (simp add: js_def)
qed

theorem direct_sign_of_token_witness:
  "fst (directOffset modern ''Etc/GMT+1'' (Fin 0) init) = Inr (Fin (- 60))
   \<and> fst (directOffset modern ''Etc/GMT-1'' (Fin 0) init) = Inr (Fin 60)
   \<and> fst (directOffset modern ''Africa/Monrovia'' (Fin 0) init) = Inr (Fin (- (89 / 2)))"
proof -
  have no_G: "71 \<notin> set (js ''1969, '')" "71 \<notin> set (js ''1970, '')" by (simp_all add: js_def)
  have b: "(1::nat) < 100" "(0::nat) < 100" "(44::nat) < 100" by simp_all
  have r: "([]::jsstring) = [] \<and> (0::nat) = 0
           \<or> (\<exists>more. ([]::jsstring) = js '':'' @ pad2 0 @ more) \<and> (0::nat) < 100" by simp
  have rs: "js '':'' @ pad2 30 @ [] = [] \<and> (30::nat) = 0
           \<or> (\<exists>more. js '':'' @ pad2 30 @ [] = js '':'' @ pad2 30 @ more) \<and> (30::nat) < 100"
    by simp
  have minus: "(0x2D :: 16 word) = 0x2B \<or> (0x2D :: 16 word) = 0x2D" by simp
  have plus: "(0x2B :: 16 word) = 0x2B \<or> (0x2B :: 16 word) = 0x2D" by simp
  have "fst (directOffset modern ''Etc/GMT+1'' (Fin 0) init)
        = Inr (Fin ((if (0x2D :: 16 word) = 0x2B then 1 else - 1)
                    * (of_nat 1 * 60 + of_nat 0 + of_nat 0 / 60)))"
    by (rule direct_sign_of_token
          [OF sample_makeDirect [OF sample_offsets(2) sample_names_not_inherited(2)]
              sample_texts(1) search_GMT_skip [OF no_G(1)] minus b(1,2) r])
  moreover have "fst (directOffset modern ''Etc/GMT-1'' (Fin 0) init)
        = Inr (Fin ((if (0x2B :: 16 word) = 0x2B then 1 else - 1)
                    * (of_nat 1 * 60 + of_nat 0 + of_nat 0 / 60)))"
    by (rule direct_sign_of_token
          [OF sample_makeDirect [OF sample_offsets(3) sample_names_not_inherited(3)]
              sample_texts(2) search_GMT_skip [OF no_G(2)] plus b(1,2) r])
  moreover have "fst (directOffset modern ''Africa/Monrovia'' (Fin 0) init)
        = Inr (Fin ((if (0x2D :: 16 word) = 0x2B then 1 else - 1)
                    * (of_nat 0 * 60 + of_nat 44 + of_nat 30 / 60)))"
    by (rule direct_sign_of_token
          [OF sample_makeDirect [OF sample_offsets(5) sample_names_not_inherited(5)]
              monrovia_text search_GMT_skip [OF no_G(1)] minus b(2,3) rs])
  ultimately show ?thesis by simp
qed

text \<open>
  C3 as worded (+1 for \<open>-\<close>, -1 for \<open>+\<close>) fails: for \<open>Asia/Kolkata\<close> the text is
  \<open>1970, GMT+05:30\<close>, the sign character is \<open>+\<close>, and the result is 330, not
  \<open>-1 * (5 * 60 + 30 + 0 / 60)\<close>.
\<close>

theorem direct_plus_is_positive:
  "call_format modern (Own (SampleDTF LongOffset ''Asia/Kolkata'')) (Fin 0)
     = Inr (js ''1970, GMT+05:30'')
   \<and> fst (directOffset modern ''Asia/Kolkata'' (Fin 0) init) = Inr (Fin 330)
   \<and> fst (directOffset modern ''Asia/Kolkata'' (Fin 0) init)
       \<noteq> Inr (Fin (- 1 * (5 * 60 + 30 + 0 / 60)))"
proof -
  have "fst (directOffset modern ''Asia/Kolkata'' (Fin 0) init) = Inr (Fin 330)"
    using direct_sample [OF sample_offsets(4) sample_clock(3) sample_names_not_inherited(4),
            of init True False]
    by (simp add: init_def)
  then show ?thesis using sample_texts(3) [of True True False] by simp
qed

subsection \<open>Evaluating the calculated resolver on the sample platform\<close>

lemma toInteger_nat: "toInteger (VNum (Fin (of_nat n))) = Some (int n)"
  by (simp add: toInteger_def)

lemma AD_not_BC: "js ''AD'' \<noteq> js ''BC''"
  by (simp add: js_def)

lemma utc_sample:
  "utcOfFields (localFields
      [VNum (Fin (of_nat y)), VNum (Fin (of_nat m)), VNum (Fin (of_nat d)), VStr (js ''AD''),
       VNum (Fin (of_nat h)), VNum (Fin (of_nat mi)), VNum (Fin (of_nat s))])
   = Fin (of_int ((((days_from_civil (int y) (int m) (int d) * 24
                     + (if h = 24 then 0 else int h)) * 60 + int mi) * 60 + int s) * 1000))"
proof -
  have z: "toInteger (VNum (Fin 0)) = Some 0" by (simp add: toInteger_def)
  have h24: "(VNum (Fin (of_nat h)) = VNum (Fin 24)) = (h = 24)"
  proof -
    have "((of_nat h :: rat) = of_nat 24) = (h = 24)" by (simp only: of_nat_eq_iff)
    then show ?thesis by simp
  qed
  show ?thesis
    by (simp add: utcOfFields_def localFields_def AD_not_BC Let_def h24 toInteger_nat z
          del: of_int_add of_int_mult)
qed

lemma sample_parsed:
  assumes z: "map_of sample_zones z = Some off" and t: "newDate ts = Some t"
    and w: "wallClock h24 off t = (y, m, d, e, h, mi, s)"
    and b: "m < 100" "d < 100" "h < 100" "mi < 100" "s < 100"
  shows "(case get_formatToParts (platform lo True h24) (Own (SampleDTF WallClock z)) of
            Some ftp \<Rightarrow> partsOffset ftp (Fin (of_int t))
          | None \<Rightarrow> hackyOffset (platform lo True h24) (Own (SampleDTF WallClock z))
                      (Fin (of_int t)))
        = Inr [VNum (Fin (of_nat y)), VNum (Fin (of_nat m)), VNum (Fin (of_nat d)), VStr (js e),
               VNum (Fin (of_nat h)), VNum (Fin (of_nat mi)), VNum (Fin (of_nat s))]"
  using sample_partsOffset [OF w b] z newDate_idem [OF t]
  by (simp add: platform_def partsOffset_def sample_formatToParts_def)

lemma sample_makeCalculated:
  assumes "map_of sample_zones z = Some off" "z \<notin> set object_prototype_keys"
  shows "makeCalculatedOffsetDTF (platform lo p h) z init =
     (Inr (Own (SampleDTF WallClock z)),
      init\<lparr>calculatedOffsetDTFCache := [z \<mapsto> SampleDTF WallClock z]\<rparr>)"
proof -
  have "\<not> truthy (obj_get (calculatedOffsetDTFCache (init :: sample_dtf state)) z)"
    using assms(2) by (simp add: truthy_obj_get init_def)
  moreover have "newDTF (platform lo p h) WallClock z = Inr (SampleDTF WallClock z)"
    using assms(1) by (simp add: platform_def)
  ultimately show ?thesis using makeCalculated_miss_ok by (fastforce simp: init_def)
qed

lemma sample_long_text:
  assumes "map_of sample_zones z = Some off" "newDate ts = Some t"
  shows "call_format (platform lo p h) (Own (SampleDTF LongOffset z)) ts
         = Inr ((decimal (fst (wallClock h off t)) @ js '', '') @ gmtToken off)"
  using assms
  by (simp add: platform_def sample_format_def sample_text_def case_prod_beta)

lemma no_G_year: "71 \<notin> set (decimal y @ js '', '')"
  using no_G_decimal by (simp add: js_def)

lemma sample_walls:
  "wallClock False (- 2670) 0 = (1969, 12, 31, ''AD'', 23, 15, 30)"
  "wallClock False 19800 (- 1234567) = (1970, 1, 1, ''AD'', 5, 9, 25)"
  "wallClock True 0 1700006400000 = (2023, 11, 15, ''AD'', 24, 0, 0)"
  unfolding wallClock_def civil_from_days_def Let_def by simp_all

lemma sample_days:
  "days_from_civil 1969 12 31 = - 1" "days_from_civil 1970 1 1 = 0"
  "days_from_civil 2023 11 15 = 19676"
  unfolding days_from_civil_def Let_def by simp_all

lemma monrovia:
  "fst (directOffset modern ''Africa/Monrovia'' (Fin 0) init) = Inr (Fin (- (89 / 2)))"
  "fst (calculatedOffset modern ''Africa/Monrovia'' (Fin 0) init) = Inr (Fin (- (89 / 2)))"
proof -
  show "fst (directOffset modern ''Africa/Monrovia'' (Fin 0) init) = Inr (Fin (- (89 / 2)))"
    using direct_sample [OF sample_offsets(5) sample_clock(3) sample_names_not_inherited(5),
            of init True False]
    by (simp add: init_def)
  have c: "calculatedOffsetDTFCache (init :: sample_dtf state) ''Africa/Monrovia'' = None"
    by (simp add: init_def)
  show "fst (calculatedOffset modern ''Africa/Monrovia'' (Fin 0) init) = Inr (Fin (- (89 / 2)))"
    using calculated_sample_parts [OF sample_offsets(5) sample_clock(3)
            sample_names_not_inherited(5) c sample_walls(1), of True]
    by (simp add: utc_sample [of 1969 12 31 23 15 30, simplified] sample_days)
qed

lemma half_not_integer: "(- (89 / 2) :: rat) \<notin> \<int>"
proof
  assume "(- (89 / 2) :: rat) \<in> \<int>"
  then obtain k :: int where "(- (89 / 2) :: rat) = of_int k" by (auto elim: Ints_cases)
  then have "(of_int (2 * k) :: rat) = of_int (- 89)" by simp
  then have "2 * k = - 89" by (simp only: of_int_eq_iff)
  then show False by presburger
qed

subsection \<open>Claims about the value of an offset\<close>

text \<open>
  C9, as the code has it: an offset is \<open>NaN\<close> or a whole number of seconds expressed in
  minutes, that is \<open>k / 60\<close> for an integer \<open>k\<close>. The direct resolver, on a text that
  ends with the oracle's token for an offset of \<open>off\<close> seconds, returns \<open>off / 60\<close>,
  which is an integer exactly when the offset has no seconds part. The calculated
  resolver (with the timestamp conversion of the spec) returns \<open>NaN\<close> or \<open>k / 60\<close>.
\<close>

theorem offset_whole_seconds:
  "(makeDirectOffsetDTF env z st = (Inr dtf, st') \<longrightarrow>
    call_format env dtf ts = Inr (pre @ gmtToken off) \<longrightarrow> 71 \<notin> set pre \<longrightarrow>
    \<bar>off\<bar> < 360000 \<longrightarrow>
      fst (directOffset env z ts st) = Inr (Fin (of_int off / 60))
      \<and> ((of_int off / 60 :: rat) \<in> \<int> \<longleftrightarrow> off mod 60 = 0))
   \<and> (objToLocalTS env = utcOfFields \<longrightarrow> fst (calculatedOffset env z ts st) = Inr r \<longrightarrow>
        r = NaN \<or> (\<exists>k::int. r = Fin (of_int k / 60)))"
proof -
  have whole: "((of_int off / 60 :: rat) \<in> \<int>) = (off mod 60 = 0)"
  proof
    assume "(of_int off / 60 :: rat) \<in> \<int>"
    then obtain k :: int where "(of_int off / 60 :: rat) = of_int k" by (auto elim: Ints_cases)
    then have "(of_int off :: rat) = of_int (60 * k)" by simp
    then have "off = 60 * k" by (simp only: of_int_eq_iff)
    then show "off mod 60 = 0" by simp
  next
    assume "off mod 60 = 0"
    then obtain k where "off = 60 * k" by (auto simp: mod_eq_0_iff_dvd)
    then have "(of_int off / 60 :: rat) = of_int k" by simp
    then show "(of_int off / 60 :: rat) \<in> \<int>" by simp
  qed
  show ?thesis
    using direct_gmtToken [of env z st dtf st' ts pre off]
      calculated_whole_seconds [of env z ts st r] whole
    by auto
qed

theorem offset_whole_seconds_witness:
  "fst (directOffset modern ''Africa/Monrovia'' (Fin 0) init) = Inr (Fin (of_int (- 2670) / 60))
   \<and> (- 2670 :: int) mod 60 \<noteq> 0
   \<and> (of_int (- 2670) / 60 :: rat) \<notin> \<int>
   \<and> objToLocalTS modern = utcOfFields
   \<and> fst (calculatedOffset modern ''Africa/Monrovia'' (Fin 0) init) = Inr (Fin (- (89 / 2)))
   \<and> (\<exists>k::int. Fin (- (89 / 2)) = Fin (of_int k / 60))"
proof -
  have mk: "makeDirectOffsetDTF modern ''Africa/Monrovia'' init =
     (Inr (Own (SampleDTF LongOffset ''Africa/Monrovia'')),
      init\<lparr>directOffsetDTFCache :=
             [''Africa/Monrovia'' \<mapsto> SampleDTF LongOffset ''Africa/Monrovia'']\<rparr>)"
    by (rule sample_makeDirect [OF sample_offsets(5) sample_names_not_inherited(5)])
  have fmt: "call_format modern (Own (SampleDTF LongOffset ''Africa/Monrovia'')) (Fin 0)
        = Inr ((decimal (fst (wallClock False (- 2670) 0)) @ js '', '') @ gmtToken (- 2670))"
    by (rule sample_long_text [OF sample_offsets(5) sample_clock(3)])
  have b: "\<bar>- 2670 :: int\<bar> < 360000" by simp
  have o: "objToLocalTS modern = utcOfFields" by (simp add: platform_def)
  have c: "fst (calculatedOffset modern ''Africa/Monrovia'' (Fin 0) init)
           = Inr (Fin (- (89 / 2)))"
    by (rule monrovia(2))
  have m: "(- 2670 :: int) mod 60 \<noteq> 0" by simp
  from offset_whole_seconds [of modern "''Africa/Monrovia''" init
         "Own (SampleDTF LongOffset ''Africa/Monrovia'')" _ "Fin 0" _ "- 2670" "Fin (- (89 / 2))",
         unfolded mk fmt]
       no_G_year b o c m
  show ?thesis by auto
qed

text \<open>
  C9 as worded (an integer or \<open>NaN\<close>) fails: \<open>Africa/Monrovia\<close> was 44 minutes and 30
  seconds behind UTC on 1 January 1970, and both resolvers return -44.5.
\<close>

theorem offset_with_seconds_is_fractional:
  "fst (directOffset modern ''Africa/Monrovia'' (Fin 0) init) = Inr (Fin (- (89 / 2)))
   \<and> fst (calculatedOffset modern ''Africa/Monrovia'' (Fin 0) init) = Inr (Fin (- (89 / 2)))
   \<and> (- (89 / 2) :: rat) \<notin> \<int>"
  using monrovia half_not_integer by simp

subsection \<open>Claims about the calculated resolver\<close>

lemma midnight_text:
  "call_format (platform lo False True) (Own (SampleDTF WallClock ''Etc/GMT''))
     (Fin 1700006400000) = Inr (js ''11/15/2023 AD, 24:00:00'')"
proof -
  have p: "sample_parts True 0 1700006400000 =
     [(js ''month'', js ''11''), (js ''literal'', js ''/''), (js ''day'', js ''15''),
      (js ''literal'', js ''/''), (js ''year'', js ''2023''), (js ''literal'', js '' ''),
      (js ''era'', js ''AD''), (js ''literal'', js '', ''), (js ''hour'', js ''24''),
      (js ''literal'', js '':''), (js ''minute'', js ''00''), (js ''literal'', js '':''),
      (js ''second'', js ''00'')]"
    by (simp add: sample_parts_def sample_walls pad2_def digit_def decimal.simps js_def)
  have "newDate (Fin 1700006400000) = Some 1700006400000" by (simp add: newDate_def)
  then show ?thesis
    by (simp add: platform_def sample_format_def sample_text_def sample_offsets p)
       (simp add: js_def)
qed

lemma midnight_match:
  "regex_exec (js ''11/15/2023 AD, 24:00:00'') =
     Some [js ''11'', js ''15'', js ''2023'', js ''AD'', js ''24'', js ''00'', js ''00'']"
  by (simp add: js_def match_here_def digitRun_def lit_def era_def optComma_def isDigit_def)

lemma midnight_hacky:
  "hackyOffset (platform lo False True) (Own (SampleDTF WallClock ''Etc/GMT''))
     (Fin 1700006400000)
   = Inr (map VStr [js ''2023'', js ''11'', js ''15'', js ''AD'', js ''24'', js ''00'', js ''00''])"
proof -
  have "filter (\<lambda>c. c \<noteq> 0x200E) (js ''11/15/2023 AD, 24:00:00'') = js ''11/15/2023 AD, 24:00:00''"
    by (simp add: js_def)
  then show ?thesis
    using midnight_text [of lo] by (simp add: hackyOffset_def midnight_match Let_def)
qed

lemma midnight_fields:
  "localFields [VStr (js ''2023''), VStr (js ''11''), VStr (js ''15''), VStr (js ''AD''),
                 VStr (js ''24''), VStr (js ''00''), VStr (js ''00'')]
   = \<lparr> year = VStr (js ''2023''), month = VStr (js ''11''), day = VStr (js ''15''),
       hour = VStr (js ''24''), minute = VStr (js ''00''), second = VStr (js ''00''),
       millisecond = VNum (Fin 0) \<rparr>"
  by (simp add: localFields_def AD_not_BC Let_def)

lemma midnight_utc:
  "utcOfFields \<lparr> year = VStr (js ''2023''), month = VStr (js ''11''), day = VStr (js ''15''),
       hour = VStr (js ''24''), minute = VStr (js ''00''), second = VStr (js ''00''),
       millisecond = VNum (Fin 0) \<rparr> = Fin 1700092800000"
proof -
  have n: "js_Number (js ''2023'') = Fin 2023" "js_Number (js ''11'') = Fin 11"
    "js_Number (js ''15'') = Fin 15" "js_Number (js ''24'') = Fin 24"
    "js_Number (js ''00'') = Fin 0"
    by (simp_all add: js_Number_def trim_def js_def isStrWhiteSpace_def isDigit_def digitsVal_def
          Let_def)
  show ?thesis by (simp add: utcOfFields_def toInteger_def n sample_days)
qed

text \<open>
  C8: the hour 24 is set to 0 when the fields come from \<open>formatToParts\<close> (they are
  numbers), but not when they come from the positional fallback: \<open>hackyOffset\<close> returns
  the captured strings, and the string \<open>"24"\<close> is not strictly equal to the number 24.
  On an engine without \<open>formatToParts\<close> that prints midnight as hour 24, the field
  handed to the timestamp conversion is the string \<open>"24"\<close> and the offset of \<open>Etc/GMT\<close>
  at 15 November 2023, 00:00:00 UTC comes out as 1440 minutes; with \<open>formatToParts\<close> the
  same engine gives 0.
\<close>

theorem hour_24_not_normalized_on_fallback:
  "hour (localFields [y, mo, d, e, VStr s, mi, se]) = VStr s
   \<and> hour (localFields [y, mo, d, e, VNum (Fin 24), mi, se]) = VNum (Fin 0)
   \<and> hackyOffset (platform False False True) (Own (SampleDTF WallClock ''Etc/GMT''))
        (Fin 1700006400000)
      = Inr (map VStr [js ''2023'', js ''11'', js ''15'', js ''AD'', js ''24'', js ''00'',
                       js ''00''])
   \<and> fst (calculatedOffset (platform False False True) ''Etc/GMT'' (Fin 1700006400000) init)
      = Inr (Fin 1440)
   \<and> fst (calculatedOffset (platform False True True) ''Etc/GMT'' (Fin 1700006400000) init)
      = Inr (Fin 0)"
proof -
  have a: "hour (localFields [y, mo, d, e, VStr s, mi, se]) = VStr s"
    "hour (localFields [y, mo, d, e, VNum (Fin 24), mi, se]) = VNum (Fin 0)"
    by (simp_all add: localFields_def Let_def)
  have nd: "newDate (Fin 1700006400000) = Some 1700006400000" by (simp add: newDate_def)
  have parsed: "(case get_formatToParts (platform False False True)
                        (Own (SampleDTF WallClock ''Etc/GMT'')) of
            Some ftp \<Rightarrow> partsOffset ftp (Fin (of_int 1700006400000))
          | None \<Rightarrow> hackyOffset (platform False False True)
                      (Own (SampleDTF WallClock ''Etc/GMT'')) (Fin (of_int 1700006400000)))
        = Inr (map VStr [js ''2023'', js ''11'', js ''15'', js ''AD'', js ''24'', js ''00'',
                         js ''00''])"
    using midnight_hacky [of False] by (simp add: platform_def)
  have obj: "objToLocalTS (platform False False True) = utcOfFields" by (simp add: platform_def)
  have b: "fst (calculatedOffset (platform False False True) ''Etc/GMT'' (Fin 1700006400000) init)
           = Inr (Fin 1440)"
    using calculated_value [OF nd sample_makeCalculated
            [OF sample_offsets(1) sample_names_not_inherited(1)] parsed]
    by (simp add: obj midnight_fields midnight_utc)
  have c0: "calculatedOffsetDTFCache (init :: sample_dtf state) ''Etc/GMT'' = None"
    by (simp add: init_def)
  have c: "fst (calculatedOffset (platform False True True) ''Etc/GMT'' (Fin 1700006400000) init)
           = Inr (Fin 0)"
    using calculated_sample_parts [OF sample_offsets(1) nd sample_names_not_inherited(1) c0
            sample_walls(3), of False]
    by (simp add: utc_sample [of 2023 11 15 24 0 0, simplified] sample_days)
  from a midnight_hacky [of False] b c show ?thesis by blast
qed







end
